theory Spec2Isabelle
  imports Complex_Main "HOL-Library.Finite_Map" "HOL-Library.Log_Nat"
begin

section \<open>JavaScript values, objects and the heap\<close>

text \<open>
  The configuration wizard of \<^verbatim>\<open>lib/init/config-initializer.js\<close> works on plain
  JavaScript objects. A configuration object and its \<^verbatim>\<open>rules\<close> object are mutable
  and can be shared, so they live in a heap of objects addressed by numbers; option values
  of a rule (strings, numbers, arrays, object literals) are never updated in place by the
  modelled functions and are immutable values.
\<close>

type_synonym addr = nat

datatype jsval =
    JUndefined
  | JNull
  | JBool bool
  | JNum int
  | JStr string
  | JArr "jsval list"
  | JObj "(string \<times> jsval) list"
  | JRef addr

type_synonym jsobj = "(string, jsval) fmap"

text \<open>The truthiness test of JavaScript (\<^verbatim>\<open>!result\<close> is its negation).\<close>

fun truthy :: "jsval \<Rightarrow> bool" where
  "truthy JUndefined = False"
| "truthy JNull = False"
| "truthy (JBool b) = b"
| "truthy (JNum n) = (n \<noteq> 0)"
| "truthy (JStr s) = (s \<noteq> [])"
| "truthy (JArr vs) = True"
| "truthy (JObj kvs) = True"
| "truthy (JRef a) = True"

text \<open>
  A JavaScript number is an IEEE 754 double: a finite double, given as the rational it
  denotes (the two zeros are not told apart), an infinity, or \<^verbatim>\<open>NaN\<close>. Every
  arithmetic operation gives the double nearest to the exact result, the one with the even
  significand when two are equally near.

  \<open>toDouble\<close> rounds a rational to a double. In units of the smallest positive double,
  2 to the power -1074, a magnitude of at most 53 bits is rounded to a whole number of
  units, and a longer one to a multiple of the power of two that leaves 53 bits; a result
  of 2 to the power 1024 or more is an infinity.
\<close>

datatype jsnum = Finite rat | Infinity | NegInfinity | NaN

definition roundEven :: "rat \<Rightarrow> int" where
  "roundEven z =
     (let f = \<lfloor>z\<rfloor>; d = z - of_int f
      in if d < 1 / 2 then f else if 1 / 2 < d then f + 1 else if even f then f else f + 1)"

definition scaleBits :: nat where
  "scaleBits = 1074"

definition overflowBits :: nat where
  "overflowBits = 2098"

definition toDouble :: "rat \<Rightarrow> jsnum" where
  "toDouble x =
     (let y = \<bar>x\<bar> * 2 ^ scaleBits;
          q = 2 ^ (floorlog 2 (nat \<lfloor>y\<rfloor>) - 53);
          m = of_int (roundEven (y / q)) * q
      in if 2 ^ overflowBits \<le> m then (if x < 0 then NegInfinity else Infinity)
         else Finite (sgn x * m / 2 ^ scaleBits))"


definition fromNat :: "nat \<Rightarrow> jsnum" where
  "fromNat n = toDouble (of_nat n)"

definition jsDiv :: "nat \<Rightarrow> nat \<Rightarrow> jsnum" where
  "jsDiv a b =
     (case (fromNat a, fromNat b) of
        (Finite x, Finite y) \<Rightarrow>
          if y = 0 then (if x = 0 then NaN else Infinity) else toDouble (x / y)
      | (Finite x, Infinity) \<Rightarrow> Finite 0
      | (Infinity, Finite y) \<Rightarrow> Infinity
      | _ \<Rightarrow> NaN)"

datatype error = Error string | TypeError string

datatype barEvent = Tick jsnum | Update nat

text \<open>
  Everything the modelled functions can change: the heap of objects, the calls made on the
  progress bar, the lines given to \<^verbatim>\<open>log.info\<close>, the cache of
  \<^verbatim>\<open>getPeerDependencies\<close>, the names fetched over the network by
  \<^verbatim>\<open>npmUtils.fetchPeerDependencies\<close>, and the number of analyzer runs.
\<close>

record world =
  heap :: "(addr, jsobj) fmap"
  nextAddr :: addr
  barCalls :: "barEvent list"
  logged :: "string list"
  peerCache :: "(string, jsval) fmap"
  fetched :: "string list"
  verified :: nat

definition alloc :: "jsobj \<Rightarrow> world \<Rightarrow> addr \<times> world" where
  "alloc obj w = (nextAddr w, w\<lparr>heap := fmupd (nextAddr w) obj (heap w), nextAddr := Suc (nextAddr w)\<rparr>)"

definition fieldsAt :: "world \<Rightarrow> addr \<Rightarrow> jsobj" where
  "fieldsAt w a = (case fmlookup (heap w) a of Some obj \<Rightarrow> obj | None \<Rightarrow> fmempty)"

definition setField :: "addr \<Rightarrow> string \<Rightarrow> jsval \<Rightarrow> world \<Rightarrow> world" where
  "setField a k v w = w\<lparr>heap := fmupd a (fmupd k v (fieldsAt w a)) (heap w)\<rparr>"

definition logInfo :: "string \<Rightarrow> world \<Rightarrow> world" where
  "logInfo s w = w\<lparr>logged := logged w @ [s]\<rparr>"

definition barTick :: "jsnum \<Rightarrow> world \<Rightarrow> world" where
  "barTick x w = w\<lparr>barCalls := barCalls w @ [Tick x]\<rparr>"

definition barUpdate :: "nat \<Rightarrow> world \<Rightarrow> world" where
  "barUpdate n w = w\<lparr>barCalls := barCalls w @ [Update n]\<rparr>"

text \<open>The rules object reachable from the configuration object at an address.\<close>

definition rulesAt :: "world \<Rightarrow> addr \<Rightarrow> jsobj option" where
  "rulesAt w a =
     (case fmlookup (fieldsAt w a) ''rules'' of
        Some (JRef r) \<Rightarrow> fmlookup (heap w) r
      | _ \<Rightarrow> None)"

section \<open>The registry of rule configurations\<close>

text \<open>
  Modelled from the spec: the class \<^verbatim>\<open>Registry\<close> of \<^verbatim>\<open>lib/init/autoconfig.js\<close>
  is not among the sources. A variant is an ordered list of option values with a status
  set by the evaluation; its specificity level is one more than the number of its option
  values; its entry in a configuration is \<^verbatim>\<open>[severity, ...options]\<close> with the error
  severity 2. The registry maps a rule to its variants in catalog order.
\<close>

datatype status = Untested | Passing | Failing

record variant =
  options :: "jsval list"
  status :: status

type_synonym registry = "(string, variant list) fmap"

definition specificity :: "variant \<Rightarrow> nat" where
  "specificity v = Suc (length (options v))"

definition variantConfig :: "variant \<Rightarrow> jsval" where
  "variantConfig v = JArr (JNum 2 # options v)"

definition passing :: "variant \<Rightarrow> bool" where
  "passing v = (status v = Passing)"

definition failing :: "variant \<Rightarrow> bool" where
  "failing v = (status v = Failing)"

text \<open>
  Modelled from the spec: \<^verbatim>\<open>populateFromCoreRules\<close> (\<open>populate(catalog)\<close> of the spec)
  seeds the registry with every variant of the catalog, untested.
\<close>

definition populateFromCoreRules :: "(string, jsval list list) fmap \<Rightarrow> registry" where
  "populateFromCoreRules catalog = fmmap (map (\<lambda>opts. \<lparr>options = opts, status = Untested\<rparr>)) catalog"

text \<open>
  Modelled from the spec: \<^verbatim>\<open>getFailingRulesRegistry\<close> (\<open>failingRules()\<close>) keeps the
  rules every variant of which is failing.
\<close>

definition getFailingRulesRegistry :: "registry \<Rightarrow> registry" where
  "getFailingRulesRegistry reg =
     fmfilter (\<lambda>r. case fmlookup reg r of Some vs \<Rightarrow> list_all failing vs | None \<Rightarrow> False) reg"

text \<open>
  Modelled from the spec: \<^verbatim>\<open>stripFailingConfigs\<close> (\<open>pruneFailingVariants()\<close>) returns
  a new registry with, per rule, only its passing variants; a rule with none is absent.
\<close>

definition stripFailingConfigs :: "registry \<Rightarrow> registry" where
  "stripFailingConfigs reg =
     fmfilter (\<lambda>r. case fmlookup reg r of Some vs \<Rightarrow> filter passing vs \<noteq> [] | None \<Rightarrow> False)
       (fmmap (filter passing) reg)"

text \<open>
  Modelled from the spec: \<^verbatim>\<open>filterBySpecificity\<close> (\<open>variantsAtSpecificity(level)\<close>)
  returns, per rule, only the variants whose specificity equals the level.
\<close>

definition filterBySpecificity :: "nat \<Rightarrow> registry \<Rightarrow> registry" where
  "filterBySpecificity n reg = fmmap (filter (\<lambda>v. specificity v = n)) reg"

text \<open>
  Modelled from the spec: \<^verbatim>\<open>createConfig\<close> is not among the sources either.
  \<^verbatim>\<open>configureRules\<close> documents it where it calls it (lines 228 to 232): ``If there is
  only one config that results in no errors for a rule, we should use it. createConfig
  will only add rules that have one configuration in the registry.'' That is the
  unique-survivor override of the spec (4.3, step 5) when it is applied to the pruned
  registry. The result maps each rule that has exactly one variant in the registry to that
  variant's entry.
\<close>

definition createConfig :: "registry \<Rightarrow> jsobj" where
  "createConfig reg =
     fmmap (\<lambda>vs. case vs of v # _ \<Rightarrow> variantConfig v | [] \<Rightarrow> JUndefined)
       (fmfilter (\<lambda>r. case fmlookup reg r of Some vs \<Rightarrow> length vs = 1 | None \<Rightarrow> False) reg)"

section \<open>External collaborators\<close>

type_synonym sourceCode = string

type_synonym corpus = "(string, sourceCode) fmap"

text \<open>
  What \<^verbatim>\<open>configureRules\<close> and \<^verbatim>\<open>getPeerDependencies\<close> consume from outside the
  file, as parameters:
  \<^item> \<open>getSourceCodeOfFiles\<close>: from the patterns and the fields of the base configuration,
    the totals it hands to its progress callback, one per call, and then either the error
    it throws or the parsed files by name;
  \<^item> \<open>coreRules\<close>: the variant catalog, per rule the option lists to try, in order;
  \<^item> \<open>verify\<close>: the analyzer on one file, with the base configuration's fields and one
    active rule with its entry; the number of diagnostics, or \<open>None\<close> when it raises;
  \<^item> \<open>recConfigRules\<close> and \<open>isErrorSeverity\<close>: the rules of
    \<^verbatim>\<open>conf/eslint-recommended\<close> and the severity test of \<^verbatim>\<open>ConfigOps\<close>;
  \<^item> \<open>lintCallbacks\<close>: the totals that \<^verbatim>\<open>lintSourceCode\<close> hands to its progress
    callback, one per call, for the files and the registry it lints;
  \<^item> \<open>fetchPeerDependencies\<close>: the answer of the network to a request, which may
    differ from one request to the next (the first argument counts the requests made
    before).
\<close>

record env =
  getSourceCodeOfFiles :: "string list \<Rightarrow> jsobj \<Rightarrow> nat list \<times> (error + corpus)"
  coreRules :: "(string, jsval list list) fmap"
  verify :: "sourceCode \<Rightarrow> jsobj \<Rightarrow> string \<Rightarrow> jsval \<Rightarrow> nat option"
  recConfigRules :: jsobj
  isErrorSeverity :: "jsval \<Rightarrow> bool"
  lintCallbacks :: "corpus \<Rightarrow> registry \<Rightarrow> nat list"
  fetchPeerDependencies :: "nat \<Rightarrow> string \<Rightarrow> jsval"

text \<open>
  Modelled from the spec: \<^verbatim>\<open>lintSourceCode\<close> (\<open>evaluate\<close>) is part of the absent
  \<^verbatim>\<open>Registry\<close>. For every rule and variant it runs the analyzer over every file with
  the base configuration and only that rule active; the variant is failing if some file
  has a diagnostic or the analyzer raises, else passing. How often it calls the progress
  callback, and with which totals, is the parameter \<open>lintCallbacks\<close>.
\<close>

definition evaluateVariant :: "env \<Rightarrow> corpus \<Rightarrow> jsobj \<Rightarrow> string \<Rightarrow> variant \<Rightarrow> variant" where
  "evaluateVariant e sourceCodes config ruleId v =
     v\<lparr>status :=
        (if fmpred (\<lambda>filename src. verify e src config ruleId (variantConfig v) = Some 0) sourceCodes
         then Passing else Failing)\<rparr>"

definition variantCount :: "registry \<Rightarrow> nat" where
  "variantCount reg =
     (\<Sum>r \<in> fmdom' reg. case fmlookup reg r of Some vs \<Rightarrow> length vs | None \<Rightarrow> 0)"

definition lintSourceCode :: "env \<Rightarrow> corpus \<Rightarrow> jsobj \<Rightarrow> registry \<Rightarrow> registry \<times> nat list" where
  "lintSourceCode e sourceCodes config reg =
     (fmmap_keys (\<lambda>ruleId. map (evaluateVariant e sourceCodes config ruleId)) reg,
      lintCallbacks e sourceCodes reg)"


section \<open>Library helpers used by the wizard\<close>

text \<open>
  \<^verbatim>\<open>answers.patterns.split(/[\s]+/u)\<close>: the pieces between maximal runs of white
  space; a string that starts or ends with white space gives an empty first or last
  piece, and the empty string gives one empty piece. Strings are UTF-8 byte strings here.
  \<^verbatim>\<open>\s\<close> matches the six ASCII white-space characters and U+00A0, U+1680, U+2000 to
  U+200A, U+2028, U+2029, U+202F, U+205F, U+3000 and U+FEFF, which take two or three
  bytes each.
\<close>

definition isSpace :: "char \<Rightarrow> bool" where
  "isSpace c = (c = CHR 0x09 \<or> c = CHR 0x0A \<or> c = CHR 0x0B \<or> c = CHR 0x0C \<or> c = CHR 0x0D \<or> c = CHR 0x20)"

definition wideSpaces :: "string list" where
  "wideSpaces =
     [[CHR 0xC2, CHR 0xA0],
      [CHR 0xE1, CHR 0x9A, CHR 0x80],
      [CHR 0xE2, CHR 0x80, CHR 0x80], [CHR 0xE2, CHR 0x80, CHR 0x81],
      [CHR 0xE2, CHR 0x80, CHR 0x82], [CHR 0xE2, CHR 0x80, CHR 0x83],
      [CHR 0xE2, CHR 0x80, CHR 0x84], [CHR 0xE2, CHR 0x80, CHR 0x85],
      [CHR 0xE2, CHR 0x80, CHR 0x86], [CHR 0xE2, CHR 0x80, CHR 0x87],
      [CHR 0xE2, CHR 0x80, CHR 0x88], [CHR 0xE2, CHR 0x80, CHR 0x89],
      [CHR 0xE2, CHR 0x80, CHR 0x8A],
      [CHR 0xE2, CHR 0x80, CHR 0xA8], [CHR 0xE2, CHR 0x80, CHR 0xA9],
      [CHR 0xE2, CHR 0x80, CHR 0xAF],
      [CHR 0xE2, CHR 0x81, CHR 0x9F],
      [CHR 0xE3, CHR 0x80, CHR 0x80],
      [CHR 0xEF, CHR 0xBB, CHR 0xBF]]"

text \<open>
  The number of bytes of the white-space character a string starts with, 0 when it starts
  with none.
\<close>

definition wsLength :: "string \<Rightarrow> nat" where
  "wsLength s =
     (case s of
        [] \<Rightarrow> 0
      | c # cs \<Rightarrow>
          if isSpace c then 1
          else (case find (\<lambda>p. take (length p) s = p) wideSpaces of
                  Some p \<Rightarrow> length p
                | None \<Rightarrow> 0))"

text \<open>
  The split, byte by byte: the piece read so far (reversed), whether the last character
  was white space, and how many bytes of a white-space character are still to be skipped.
\<close>

fun splitFrom :: "string \<Rightarrow> bool \<Rightarrow> nat \<Rightarrow> string \<Rightarrow> string list" where
  "splitFrom acc inSpace skip [] = [rev acc]"
| "splitFrom acc inSpace (Suc k) (c # cs) = splitFrom acc inSpace k cs"
| "splitFrom acc inSpace 0 (c # cs) =
     (case wsLength (c # cs) of
        0 \<Rightarrow> splitFrom (c # acc) False 0 cs
      | Suc k \<Rightarrow>
          if inSpace then splitFrom acc True k cs
          else rev acc # splitFrom [] True k cs)"

definition splitWs :: "string \<Rightarrow> string list" where
  "splitWs s = splitFrom [] False 0 s"

text \<open>A number in a template literal: its decimal digits.\<close>

definition digitChar :: "nat \<Rightarrow> char" where
  "digitChar d = char_of (48 + d)"

function showNat :: "nat \<Rightarrow> string" where
  "showNat n = (if n < 10 then [digitChar n] else showNat (n div 10) @ [digitChar (n mod 10)])"
  by pat_completeness auto
termination
  by (relation "measure id") auto

text \<open>
  Modelled from the spec: \<^verbatim>\<open>ConfigOps.normalizeToStrings\<close> (of the package
  \<^verbatim>\<open>@eslint/eslintrc\<close>) replaces, in the rules object of a configuration, numeric
  severities by their names, for an entry that is a number and for the first element of
  an entry that is an array; a number that names no severity becomes \<^verbatim>\<open>off\<close>.
\<close>

definition severityString :: "int \<Rightarrow> string" where
  "severityString n = (if n = 1 then ''warn'' else if n = 2 then ''error'' else ''off'')"

fun normalizeRule :: "jsval \<Rightarrow> jsval" where
  "normalizeRule (JNum n) = JStr (severityString n)"
| "normalizeRule (JArr (JNum n # rest)) = JArr (JStr (severityString n) # rest)"
| "normalizeRule v = v"

definition normalizeToStrings :: "addr \<Rightarrow> world \<Rightarrow> world" where
  "normalizeToStrings a w =
     (case fmlookup (fieldsAt w a) ''rules'' of
        Some (JRef r) \<Rightarrow>
          (case fmlookup (heap w) r of
             Some obj \<Rightarrow> w\<lparr>heap := fmupd r (fmmap normalizeRule obj) (heap w)\<rparr>
           | None \<Rightarrow> w)
      | _ \<Rightarrow> w)"

section \<open>getPeerDependencies\<close>

text \<open>
  Lines 89 to 101. The cache is a \<^verbatim>\<open>Map\<close> owned by the function; a missing key reads
  as \<^verbatim>\<open>undefined\<close>. A falsy cached value is treated like a missing one: the module
  is fetched again and the cache entry is overwritten.
\<close>

definition getPeerDependencies :: "env \<Rightarrow> string \<Rightarrow> world \<Rightarrow> jsval \<times> world" where
  "getPeerDependencies e moduleName w =
     (let result = (case fmlookup (peerCache w) moduleName of Some v \<Rightarrow> v | None \<Rightarrow> JUndefined)
      in if \<not> truthy result then
           (let w1 = logInfo (''Checking peerDependencies of '' @ moduleName) w;
                result' = fetchPeerDependencies e (length (fetched w1)) moduleName;
                w2 = w1\<lparr>fetched := fetched w1 @ [moduleName],
                        peerCache := fmupd moduleName result' (peerCache w1)\<rparr>
            in (result', w2))
         else (result, w))"

section \<open>configureRules\<close>

definition BAR_TOTAL :: nat where
  "BAR_TOTAL = 20"

definition BAR_SOURCE_CODE_TOTAL :: nat where
  "BAR_SOURCE_CODE_TOTAL = 4"

definition noFilesMessage :: string where
  "noFilesMessage = ''Automatic Configuration failed.  No files were able to be parsed.''"

definition newline :: string where
  "newline = [CHR 0x0A]"

text \<open>
  Lines 177 to 201: show the progress bar, split the patterns, load the source code of the
  chosen files (each call of the callback ticks the bar by \<open>4 / total\<close>), and fail when
  loading throws or gives no file. Reading \<^verbatim>\<open>split\<close> from \<^verbatim>\<open>undefined\<close> (a
  missing \<^verbatim>\<open>patterns\<close>) or \<^verbatim>\<open>null\<close> is a type error, and so is calling it on
  another value that is not a string.
\<close>

definition splitTypeError :: "jsval option \<Rightarrow> error" where
  "splitTypeError v =
     (if v = None \<or> v = Some JUndefined
      then TypeError (''Cannot read properties of undefined (reading '' @ [CHR 0x27] @ ''split''
             @ [CHR 0x27] @ '')'')
      else if v = Some JNull
      then TypeError (''Cannot read properties of null (reading '' @ [CHR 0x27] @ ''split''
             @ [CHR 0x27] @ '')'')
      else TypeError ''answers.patterns.split is not a function'')"

definition loadSourceCodes :: "env \<Rightarrow> jsobj \<Rightarrow> addr \<Rightarrow> world \<Rightarrow> (error + corpus) \<times> world" where
  "loadSourceCodes e answers newConfig w =
     (let w1 = barTick (Finite 0) w
      in case fmlookup answers ''patterns'' of
           Some (JStr p) \<Rightarrow>
             (let patterns = splitWs p;
                  (totals, outcome) = getSourceCodeOfFiles e patterns (fieldsAt w1 newConfig);
                  w2 = fold (\<lambda>total. barTick (jsDiv BAR_SOURCE_CODE_TOTAL total)) totals w1
              in case outcome of
                   Inl err \<Rightarrow> (Inl err, logInfo newline w2)
                 | Inr sourceCodes \<Rightarrow>
                     (let fileQty = fcard (fmdom sourceCodes)
                      in if fileQty = 0 then (Inl (Error noFilesMessage), logInfo newline w2)
                         else (Inr sourceCodes, w2)))
         | other \<Rightarrow> (Inl (splitTypeError other), w1))"

text \<open>
  Lines 203 to 210: a fresh registry of the core rules, linted over all files; each call
  of the callback ticks the bar by \<open>(20 - 4) / total\<close>.
\<close>

definition lintTicks :: "nat list \<Rightarrow> jsnum list" where
  "lintTicks totals = map (\<lambda>total. jsDiv (BAR_TOTAL - BAR_SOURCE_CODE_TOTAL) total) totals"

definition lintPhase :: "env \<Rightarrow> corpus \<Rightarrow> addr \<Rightarrow> world \<Rightarrow> registry \<times> world" where
  "lintPhase e sourceCodes newConfig w =
     (let registry = populateFromCoreRules (coreRules e);
          (registry', totals) = lintSourceCode e sourceCodes (fieldsAt w newConfig) registry;
          w1 = fold barTick (lintTicks totals) w
      in (registry', w1\<lparr>verified := verified w1 + fcard (fmdom sourceCodes) * variantCount registry\<rparr>))"

text \<open>
  Lines 213 to 249: the object assigned to \<^verbatim>\<open>newConfig.rules\<close>, from the linted
  registry. \<^verbatim>\<open>Object.assign\<close> copies its arguments from left to right, so a later one
  overwrites an earlier one on the same rule.
\<close>

definition recRules :: "env \<Rightarrow> string fset" where
  "recRules e =
     ffilter (\<lambda>ruleId. case fmlookup (recConfigRules e) ruleId of
                          Some c \<Rightarrow> isErrorSeverity e c | None \<Rightarrow> False)
       (fmdom (recConfigRules e))"

definition disabledConfigs :: "env \<Rightarrow> registry \<Rightarrow> jsobj" where
  "disabledConfigs e registry =
     fmmap_keys (\<lambda>ruleId vs. JNum (if ruleId |\<in>| recRules e then 2 else 0))
       (getFailingRulesRegistry registry)"

definition ruleConfigs :: "env \<Rightarrow> registry \<Rightarrow> jsobj" where
  "ruleConfigs e registry =
     (let registry' = stripFailingConfigs registry;
          singleConfigs = createConfig registry';
          specTwoConfigs = createConfig (filterBySpecificity 2 registry');
          specThreeConfigs = createConfig (filterBySpecificity 3 registry');
          defaultConfigs = createConfig (filterBySpecificity 1 registry')
      in fmadd (fmadd (fmadd (fmadd (disabledConfigs e registry) defaultConfigs)
                 specThreeConfigs) specTwoConfigs) singleConfigs)"

text \<open>Lines 254 to 264: the statistics logged at the end.\<close>

definition resultMessage :: "jsobj \<Rightarrow> nat \<Rightarrow> string" where
  "resultMessage rules fileQty =
     (let totalRules = fcard (fmdom rules);
          enabledRules = fcard (ffilter (\<lambda>ruleId. fmlookup rules ruleId \<noteq> Some (JNum 0)) (fmdom rules))
      in newline @ ''Enabled '' @ showNat enabledRules @ '' out of '' @ showNat totalRules
         @ '' '' @ ''rules based on '' @ showNat fileQty
         @ '' '' @ ''file'' @ (if fileQty = 1 then ''.'' else ''s.''))"

text \<open>
  Lines 169 to 268. The debug output of line 211 is left out. The result is the address
  of the new configuration object, or the error thrown.
\<close>

definition configureRules :: "env \<Rightarrow> jsobj \<Rightarrow> addr \<Rightarrow> world \<Rightarrow> (error + addr) \<times> world" where
  "configureRules e answers config w =
     (let (newConfig, w0) = alloc (fieldsAt w config) w
      in case loadSourceCodes e answers newConfig w0 of
           (Inl err, w1) \<Rightarrow> (Inl err, w1)
         | (Inr sourceCodes, w1) \<Rightarrow>
             (let (registry, w2) = lintPhase e sourceCodes newConfig w1;
                  (rules, w3) = alloc (ruleConfigs e registry) w2;
                  w4 = setField newConfig ''rules'' (JRef rules) w3;
                  w5 = barUpdate BAR_TOTAL w4;
                  w6 = logInfo (resultMessage (ruleConfigs e registry) (fcard (fmdom sourceCodes))) w5;
                  w7 = normalizeToStrings newConfig w6
              in (Inr newConfig, w7)))"

text \<open>
  The registry as linted by a run of \<^verbatim>\<open>configureRules\<close> (the value of
  \<^verbatim>\<open>registry\<close> after line 210), when the run gets that far, and the variants of one
  rule in it.
\<close>

definition lintedRegistry :: "env \<Rightarrow> jsobj \<Rightarrow> addr \<Rightarrow> world \<Rightarrow> registry option" where
  "lintedRegistry e answers config w =
     (let (newConfig, w0) = alloc (fieldsAt w config) w
      in case loadSourceCodes e answers newConfig w0 of
           (Inl err, w1) \<Rightarrow> None
         | (Inr sourceCodes, w1) \<Rightarrow> Some (fst (lintPhase e sourceCodes newConfig w1)))"

definition lintedVariants :: "env \<Rightarrow> jsobj \<Rightarrow> addr \<Rightarrow> world \<Rightarrow> string \<Rightarrow> variant list option" where
  "lintedVariants e answers config w ruleId =
     (case lintedRegistry e answers config w of
        None \<Rightarrow> None
      | Some registry \<Rightarrow> fmlookup registry ruleId)"

section \<open>Observations on a call of configureRules\<close>

text \<open>
  The rules object of the configuration that a call returns (\<open>None\<close> when the call
  throws), and the entry of one rule in it.
\<close>

definition configuredRules :: "env \<Rightarrow> jsobj \<Rightarrow> addr \<Rightarrow> world \<Rightarrow> jsobj option" where
  "configuredRules e answers config w =
     (case configureRules e answers config w of
        (Inl err, w') \<Rightarrow> None
      | (Inr newConfig, w') \<Rightarrow> rulesAt w' newConfig)"

definition configuredRule :: "env \<Rightarrow> jsobj \<Rightarrow> addr \<Rightarrow> world \<Rightarrow> string \<Rightarrow> jsval option" where
  "configuredRule e answers config w ruleId =
     (case configuredRules e answers config w of
        None \<Rightarrow> None
      | Some rules \<Rightarrow> fmlookup rules ruleId)"

text \<open>
  What a caller can see of the result: the error thrown, or the fields of the returned
  configuration other than \<^verbatim>\<open>rules\<close> together with its rules object.
\<close>

definition outcome :: "env \<Rightarrow> jsobj \<Rightarrow> addr \<Rightarrow> world \<Rightarrow> error + (jsobj \<times> jsobj option)" where
  "outcome e answers config w =
     (case configureRules e answers config w of
        (Inl err, w') \<Rightarrow> Inl err
      | (Inr newConfig, w') \<Rightarrow> Inr (fmdrop ''rules'' (fieldsAt w' newConfig), rulesAt w' newConfig))"

text \<open>
  The entry that \<^verbatim>\<open>createConfig\<close> gives a rule, from the variants the registry has
  for it: the entry of the only variant, if there is exactly one.
\<close>

definition soleConfig :: "variant list \<Rightarrow> jsval option" where
  "soleConfig vs = (case vs of [v] \<Rightarrow> Some (variantConfig v) | _ \<Rightarrow> None)"



text \<open>A sequence of calls of the two modelled functions, each on the world the last one left.\<close>

datatype call = GetPeerDependencies string | ConfigureRules jsobj addr

fun perform :: "env \<Rightarrow> call \<Rightarrow> world \<Rightarrow> world" where
  "perform e (GetPeerDependencies moduleName) w = snd (getPeerDependencies e moduleName w)"
| "perform e (ConfigureRules answers config) w = snd (configureRules e answers config w)"

fun performAll :: "env \<Rightarrow> call list \<Rightarrow> world \<Rightarrow> world" where
  "performAll e [] w = w"
| "performAll e (c # cs) w = performAll e cs (perform e c w)"

section \<open>A sample project\<close>

text \<open>
  One file, a catalog of seven rules, and an analyzer that reports a diagnostic for the
  listed entries and none for the others. The recommended configuration has
  \<^verbatim>\<open>no-undef\<close> at the severity \<^verbatim>\<open>error\<close> and \<^verbatim>\<open>no-console\<close> at
  \<^verbatim>\<open>warn\<close>. The registry calls the progress callback once for each file and variant,
  with the number of these calls as the total. The network knows no peer dependencies at
  the first request and some afterwards.
\<close>

definition demoCatalog :: "(string, jsval list list) fmap" where
  "demoCatalog = fmap_of_list
     [(''quotes'', [[], [JStr ''single''], [JStr ''double''],
                    [JStr ''double'', JObj [(''avoidEscape'', JBool True)]]]),
      (''eqeqeq'', [[], [JStr ''always''], [JStr ''always'', JObj [(''null'', JStr ''ignore'')]]]),
      (''no-undef'', [[]]),
      (''no-alert'', [[]]),
      (''indent'', [[], [JNum 2], [JNum 4]]),
      (''curly'', [[JStr ''all''], [JStr ''multi''], [JStr ''multi'', JStr ''consistent'']]),
      (''no-console'', [[]])]"

definition demoDiagnostics :: "(string \<times> jsval) list" where
  "demoDiagnostics =
     [(''quotes'', JArr [JNum 2, JStr ''single'']),
      (''eqeqeq'', JArr [JNum 2]),
      (''eqeqeq'', JArr [JNum 2, JStr ''always'']),
      (''no-undef'', JArr [JNum 2]),
      (''no-alert'', JArr [JNum 2]),
      (''indent'', JArr [JNum 2]),
      (''no-console'', JArr [JNum 2])]"

definition demoFiles :: corpus where
  "demoFiles = fmupd ''a.js'' ''x'' fmempty"

definition demoEnv :: env where
  "demoEnv =
     \<lparr>getSourceCodeOfFiles = (\<lambda>patterns config. ([1], Inr demoFiles)),
      coreRules = demoCatalog,
      verify = (\<lambda>src config ruleId entry.
                  if (ruleId, entry) \<in> set demoDiagnostics then Some 1 else Some 0),
      recConfigRules = fmupd ''no-undef'' (JStr ''error'') (fmupd ''no-console'' (JStr ''warn'') fmempty),
      isErrorSeverity = (\<lambda>c. c = JStr ''error'' \<or> c = JNum 2),
      lintCallbacks = (\<lambda>sourceCodes registry.
                         replicate (fcard (fmdom sourceCodes) * variantCount registry)
                           (fcard (fmdom sourceCodes) * variantCount registry)),
      fetchPeerDependencies = (\<lambda>k moduleName. if k = 0 then JNull else JObj [(''eslint'', JStr ''7'')])\<rparr>"

text \<open>The same project when no file matches the patterns.\<close>

definition emptyEnv :: env where
  "emptyEnv = demoEnv\<lparr>getSourceCodeOfFiles := (\<lambda>patterns config. ([], Inr fmempty))\<rparr>"



definition demoAnswers :: jsobj where
  "demoAnswers = fmupd ''patterns'' (JStr ''lib test'') fmempty"

definition demoWorld :: world where
  "demoWorld =
     \<lparr>heap = fmupd 0 (fmupd ''rules'' (JRef 1) (fmupd ''extends'' (JArr [JStr ''eslint:recommended'']) fmempty))
              (fmupd 1 (fmupd ''indent'' (JArr [JStr ''error'', JNum 4]) fmempty) fmempty),
      nextAddr = 2, barCalls = [], logged = [], peerCache = fmempty, fetched = [], verified = 0\<rparr>"

section \<open>Rounding to doubles\<close>

lemma roundEven_int [simp]: "roundEven (of_int k) = k"
  by (simp add: roundEven_def)





lemma scale_pos [simp]: "(0::rat) < 2 ^ scaleBits"
  by simp

lemma roundEven_zero [simp]: "roundEven 0 = 0"
  using roundEven_int[of 0] by simp























section \<open>Frames, lookups and the entry of a rule\<close>

lemma fold_barTick_fields:
  "heap (fold (\<lambda>t. barTick (g t)) ts w) = heap w"
  "nextAddr (fold (\<lambda>t. barTick (g t)) ts w) = nextAddr w"
  "verified (fold (\<lambda>t. barTick (g t)) ts w) = verified w"
  "peerCache (fold (\<lambda>t. barTick (g t)) ts w) = peerCache w"
  "fetched (fold (\<lambda>t. barTick (g t)) ts w) = fetched w"
  "logged (fold (\<lambda>t. barTick (g t)) ts w) = logged w"
  by (induction ts arbitrary: w) (simp_all add: barTick_def)

lemma fold_barTick_calls:
  "barCalls (fold (\<lambda>t. barTick (g t)) ts w) = barCalls w @ map (\<lambda>t. Tick (g t)) ts"
  by (induction ts arbitrary: w) (simp_all add: barTick_def)

lemma loadSourceCodes_frame:
  assumes "loadSourceCodes e answers n w = (res, w')"
  shows "heap w' = heap w \<and> nextAddr w' = nextAddr w \<and> verified w' = verified w
         \<and> peerCache w' = peerCache w \<and> fetched w' = fetched w"
  using assms
  by (auto simp: loadSourceCodes_def Let_def fold_barTick_fields barTick_def logInfo_def
      split: option.splits jsval.splits prod.splits sum.splits if_splits)

lemma lintPhase_frame:
  assumes "lintPhase e sc n w = (reg, w')"
  shows "heap w' = heap w \<and> nextAddr w' = nextAddr w
         \<and> peerCache w' = peerCache w \<and> fetched w' = fetched w"
  using assms
  by (auto simp: lintPhase_def Let_def fold_barTick_fields[of "\<lambda>x. x", simplified] split: prod.splits)

lemma lookup_createConfig:
  "fmlookup (createConfig reg) r =
     (case fmlookup reg r of Some [v] \<Rightarrow> Some (variantConfig v) | _ \<Rightarrow> None)"
  by (auto simp: createConfig_def split: option.splits list.splits)

lemma lookup_stripFailingConfigs:
  "fmlookup (stripFailingConfigs reg) r =
     (case fmlookup reg r of
        Some vs \<Rightarrow> if filter passing vs \<noteq> [] then Some (filter passing vs) else None
      | None \<Rightarrow> None)"
  by (auto simp: stripFailingConfigs_def split: option.splits)

lemma lookup_filterBySpecificity:
  "fmlookup (filterBySpecificity n reg) r = map_option (filter (\<lambda>v. specificity v = n)) (fmlookup reg r)"
  by (simp add: filterBySpecificity_def)

lemma lookup_disabledConfigs:
  "fmlookup (disabledConfigs e reg) r =
     (case fmlookup reg r of
        Some vs \<Rightarrow> if list_all failing vs then Some (JNum (if r |\<in>| recRules e then 2 else 0)) else None
      | None \<Rightarrow> None)"
  by (auto simp: disabledConfigs_def getFailingRulesRegistry_def split: option.splits)

lemma fmlookup_fmadd_case:
  "fmlookup (fmadd m n) x = (case fmlookup n x of Some v \<Rightarrow> Some v | None \<Rightarrow> fmlookup m x)"
  by (auto simp: fmlookup_dom_iff split: option.splits)

lemma lookup_single:
  "fmlookup (createConfig (stripFailingConfigs reg)) r =
     (case fmlookup reg r of
        None \<Rightarrow> None
      | Some vs \<Rightarrow> (case filter passing vs of [v] \<Rightarrow> Some (variantConfig v) | _ \<Rightarrow> None))"
  by (simp add: lookup_createConfig lookup_stripFailingConfigs split: option.splits list.splits)

lemma lookup_tier:
  "fmlookup (createConfig (filterBySpecificity n (stripFailingConfigs reg))) r =
     (case fmlookup reg r of
        None \<Rightarrow> None
      | Some vs \<Rightarrow>
          (case filter (\<lambda>v. specificity v = n) (filter passing vs) of
             [v] \<Rightarrow> Some (variantConfig v) | _ \<Rightarrow> None))"
  by (simp add: lookup_createConfig lookup_filterBySpecificity lookup_stripFailingConfigs
      del: filter_filter split: option.splits list.splits)

lemma ruleConfigs_lookup:
  "fmlookup (ruleConfigs e reg) r =
     (case fmlookup (createConfig (stripFailingConfigs reg)) r of
        Some c \<Rightarrow> Some c
      | None \<Rightarrow>
     (case fmlookup (createConfig (filterBySpecificity 2 (stripFailingConfigs reg))) r of
        Some c \<Rightarrow> Some c
      | None \<Rightarrow>
     (case fmlookup (createConfig (filterBySpecificity 3 (stripFailingConfigs reg))) r of
        Some c \<Rightarrow> Some c
      | None \<Rightarrow>
     (case fmlookup (createConfig (filterBySpecificity 1 (stripFailingConfigs reg))) r of
        Some c \<Rightarrow> Some c
      | None \<Rightarrow> fmlookup (disabledConfigs e reg) r))))"
  unfolding ruleConfigs_def Let_def fmlookup_fmadd_case ..

lemma passing_not_all_failing:
  "filter passing vs \<noteq> [] \<Longrightarrow> \<not> list_all failing vs"
  by (induction vs) (auto simp: passing_def failing_def split: if_splits)

lemma configureRules_run:
  assumes "lintedRegistry e answers config w = Some reg"
  shows "\<exists>w'. configureRules e answers config w = (Inr (nextAddr w), w')
           \<and> rulesAt w' (nextAddr w) = Some (fmmap normalizeRule (ruleConfigs e reg))"
proof -
  obtain n w0 where a: "alloc (fieldsAt w config) w = (n, w0)" by force
  then have n: "n = nextAddr w" and w0: "nextAddr w0 = Suc n"
    by (auto simp: alloc_def)
  obtain res w1 where l: "loadSourceCodes e answers n w0 = (res, w1)" by force
  from assms a l obtain sc where res: "res = Inr sc"
    by (cases res) (auto simp: lintedRegistry_def)
  obtain reg' w2 where p: "lintPhase e sc n w1 = (reg', w2)" by force
  with assms a l res have reg: "reg' = reg"
    by (simp add: lintedRegistry_def)
  from loadSourceCodes_frame[OF l] lintPhase_frame[OF p] w0
  have h2: "heap w2 = heap w0" and n2: "nextAddr w2 = Suc n" by simp_all
  define w3 where "w3 = snd (alloc (ruleConfigs e reg) w2)"
  have a2: "alloc (ruleConfigs e reg) w2 = (Suc n, w3)"
    using n2 by (simp add: w3_def alloc_def)
  define w7 where "w7 = normalizeToStrings n (logInfo (resultMessage (ruleConfigs e reg) (fcard (fmdom sc)))
           (barUpdate BAR_TOTAL (setField n ''rules'' (JRef (Suc n)) w3)))"
  have "configureRules e answers config w = (Inr n, w7)"
    unfolding configureRules_def w7_def using l res p reg by (simp add: a a2)
  moreover have "rulesAt w7 n = Some (fmmap normalizeRule (ruleConfigs e reg))"
    unfolding w7_def w3_def by (simp add: rulesAt_def normalizeToStrings_def logInfo_def barUpdate_def
        setField_def alloc_def fieldsAt_def n2)
  ultimately show ?thesis using n by simp
qed

lemma lintPhase_registry:
  "fst (lintPhase e sc n w) =
     fmmap_keys (\<lambda>ruleId. map (evaluateVariant e sc (fieldsAt w n) ruleId))
       (populateFromCoreRules (coreRules e))"
  by (simp add: lintPhase_def lintSourceCode_def Let_def)

lemma lintedVariants_shape:
  assumes "lintedVariants e answers config w r = Some vs"
  shows "\<exists>sc cfg vs0. vs = map (evaluateVariant e sc cfg r) vs0"
proof -
  from assms obtain reg where r: "lintedRegistry e answers config w = Some reg"
    and v: "fmlookup reg r = Some vs"
    by (auto simp: lintedVariants_def split: option.splits)
  from r obtain sc n w1 where "reg = fst (lintPhase e sc n w1)"
    by (auto simp: lintedRegistry_def split: prod.splits sum.splits)
  with v show ?thesis
    by (auto simp: lintPhase_registry)
qed

lemma evaluateVariant_status:
  "status (evaluateVariant e sc cfg r v) = Passing \<or> status (evaluateVariant e sc cfg r v) = Failing"
  by (simp add: evaluateVariant_def)

lemma lintedVariants_tested:
  assumes "lintedVariants e answers config w r = Some vs" "v \<in> set vs"
  shows "status v = Passing \<or> status v = Failing"
proof -
  from lintedVariants_shape[OF assms(1)] obtain sc cfg vs0
    where "vs = map (evaluateVariant e sc cfg r) vs0" by blast
  with assms(2) obtain x where "v = evaluateVariant e sc cfg r x" by auto
  then show ?thesis using evaluateVariant_status by simp
qed

lemma lintedVariants_failing:
  assumes "lintedVariants e answers config w r = Some vs"
  shows "list_all failing vs \<longleftrightarrow> filter passing vs = []"
  using lintedVariants_tested[OF assms]
  by (auto simp: list_all_iff filter_empty_conv passing_def failing_def)

lemma lintedRegistry_None:
  assumes "lintedRegistry e answers config w = None"
  shows "\<exists>err w'. configureRules e answers config w = (Inl err, w')"
  using assms
  by (auto simp: lintedRegistry_def configureRules_def split: prod.splits sum.splits)

lemma configuredRules_linted:
  "configuredRules e answers config w =
     map_option (\<lambda>reg. fmmap normalizeRule (ruleConfigs e reg)) (lintedRegistry e answers config w)"
proof (cases "lintedRegistry e answers config w")
  case None
  from lintedRegistry_None[OF this] show ?thesis
    using None by (auto simp: configuredRules_def)
next
  case (Some reg)
  from configureRules_run[OF this] show ?thesis
    using Some by (auto simp: configuredRules_def)
qed

lemma configuredRule_linted:
  assumes "lintedVariants e answers config w r = Some vs"
  shows "\<exists>reg. lintedRegistry e answers config w = Some reg \<and> fmlookup reg r = Some vs
           \<and> configuredRule e answers config w r = map_option normalizeRule (fmlookup (ruleConfigs e reg) r)"
  using assms
  by (auto simp: lintedVariants_def configuredRule_def configuredRules_linted split: option.splits)

lemma configuredRule_unlinted:
  assumes "lintedVariants e answers config w r = None"
  shows "configuredRule e answers config w r = None"
proof (cases "lintedRegistry e answers config w")
  case None
  then show ?thesis by (simp add: configuredRule_def configuredRules_linted)
next
  case (Some reg)
  with assms have "fmlookup reg r = None" by (simp add: lintedVariants_def)
  then have "fmlookup (ruleConfigs e reg) r = None"
    by (simp add: ruleConfigs_lookup lookup_single lookup_tier lookup_disabledConfigs)
  with Some show ?thesis by (simp add: configuredRule_def configuredRules_linted)
qed

lemma normalize_variantConfig:
  "normalizeRule (variantConfig v) = JArr (JStr ''error'' # options v)"
  by (simp add: variantConfig_def severityString_def)

lemma entry_single:
  assumes "fmlookup reg r = Some vs" "filter passing vs = [v]"
  shows "fmlookup (ruleConfigs e reg) r = Some (variantConfig v)"
  using assms by (simp add: ruleConfigs_lookup lookup_single)

lemma entry_two:
  assumes "fmlookup reg r = Some vs" "filter (\<lambda>x. passing x \<and> specificity x = 2) vs = [v]"
  shows "fmlookup (ruleConfigs e reg) r = Some (variantConfig v)"
proof -
  have v: "v \<in> set (filter passing vs)"
  proof -
    have "v \<in> set (filter (\<lambda>x. passing x \<and> specificity x = 2) vs)" using assms(2) by simp
    then show ?thesis by simp
  qed
  have two: "filter (\<lambda>x. specificity x = 2) (filter passing vs) = [v]"
    using assms(2) by simp
  show ?thesis
  proof (cases "\<exists>u. filter passing vs = [u]")
    case True
    then obtain u where u: "filter passing vs = [u]" by blast
    with v have "u = v" by simp
    with u entry_single[OF assms(1)] show ?thesis by simp
  next
    case False
    then have "fmlookup (createConfig (stripFailingConfigs reg)) r = None"
      using assms(1) by (auto simp: lookup_single split: list.splits)
    then show ?thesis
      using assms(1) two by (simp add: ruleConfigs_lookup lookup_tier del: filter_filter)
  qed
qed

lemma entry_failing:
  assumes "fmlookup reg r = Some vs" "filter passing vs = []" "list_all failing vs"
  shows "fmlookup (ruleConfigs e reg) r = Some (JNum (if r |\<in>| recRules e then 2 else 0))"
  using assms
  by (simp add: ruleConfigs_lookup lookup_single lookup_tier lookup_disabledConfigs)

lemma loadSourceCodes_result:
  assumes "fmlookup answers ''patterns'' = Some (JStr p)"
    and "snd (getSourceCodeOfFiles e (splitWs p) (fieldsAt w n)) = Inr sc"
    and "fmdom sc \<noteq> {||}"
  shows "\<exists>w'. loadSourceCodes e answers n w = (Inr sc, w')"
proof -
  obtain totals where g: "getSourceCodeOfFiles e (splitWs p) (fieldsAt w n) = (totals, Inr sc)"
    using assms(2) by (cases "getSourceCodeOfFiles e (splitWs p) (fieldsAt w n)") auto
  have f: "fieldsAt (barTick (Finite 0) w) n = fieldsAt w n"
    by (simp add: fieldsAt_def barTick_def)
  show ?thesis
    by (simp add: loadSourceCodes_def Let_def assms(1) f g fcard_0_eq assms(3))
qed

lemma lintedVariants_loaded:
  assumes "fmlookup answers ''patterns'' = Some (JStr p)"
    and "snd (getSourceCodeOfFiles e (splitWs p) (fieldsAt w config)) = Inr sc"
    and "fmdom sc \<noteq> {||}"
  shows "lintedVariants e answers config w r =
           map_option (map (evaluateVariant e sc (fieldsAt w config) r))
             (fmlookup (populateFromCoreRules (coreRules e)) r)"
proof -
  obtain n w0 where a: "alloc (fieldsAt w config) w = (n, w0)" by force
  then have f: "fieldsAt w0 n = fieldsAt w config"
    by (auto simp: alloc_def fieldsAt_def)
  from loadSourceCodes_result[OF assms(1), of e w0 n sc] assms(2,3) f
  obtain w1 where l: "loadSourceCodes e answers n w0 = (Inr sc, w1)" by auto
  from loadSourceCodes_frame[OF l] f have f1: "fieldsAt w1 n = fieldsAt w config"
    by (simp add: fieldsAt_def)
  show ?thesis
    by (simp add: lintedVariants_def lintedRegistry_def a l lintPhase_registry f1 split: option.splits)
qed

lemma demo_linted:
  "lintedVariants demoEnv demoAnswers 0 demoWorld r =
     map_option (map (evaluateVariant demoEnv (demoFiles) (fieldsAt demoWorld 0) r))
       (fmlookup (populateFromCoreRules demoCatalog) r)"
  using lintedVariants_loaded[of demoAnswers "''lib test''" demoEnv demoWorld 0 "demoFiles" r]
  by (simp add: demoAnswers_def demoEnv_def demoFiles_def)

lemma demo_evaluate:
  "evaluateVariant demoEnv (demoFiles) cfg r v =
     v\<lparr>status := if (r, variantConfig v) \<in> set demoDiagnostics then Failing else Passing\<rparr>"
  by (auto simp: evaluateVariant_def demoEnv_def demoFiles_def fmpred_iff)

lemma demo_quotes:
  "lintedVariants demoEnv demoAnswers 0 demoWorld ''quotes'' =
     Some [\<lparr>options = [], status = Passing\<rparr>,
           \<lparr>options = [JStr ''single''], status = Failing\<rparr>,
           \<lparr>options = [JStr ''double''], status = Passing\<rparr>,
           \<lparr>options = [JStr ''double'', JObj [(''avoidEscape'', JBool True)]], status = Passing\<rparr>]"
  by (simp add: demo_linted demo_evaluate populateFromCoreRules_def demoCatalog_def
      demoDiagnostics_def variantConfig_def)

lemma demo_curly:
  "lintedVariants demoEnv demoAnswers 0 demoWorld ''curly'' =
     Some [\<lparr>options = [JStr ''all''], status = Passing\<rparr>,
           \<lparr>options = [JStr ''multi''], status = Passing\<rparr>,
           \<lparr>options = [JStr ''multi'', JStr ''consistent''], status = Passing\<rparr>]"
  by (simp add: demo_linted demo_evaluate populateFromCoreRules_def demoCatalog_def
      demoDiagnostics_def variantConfig_def)

lemma demo_indent:
  "lintedVariants demoEnv demoAnswers 0 demoWorld ''indent'' =
     Some [\<lparr>options = [], status = Failing\<rparr>,
           \<lparr>options = [JNum 2], status = Passing\<rparr>,
           \<lparr>options = [JNum 4], status = Passing\<rparr>]"
  by (simp add: demo_linted demo_evaluate populateFromCoreRules_def demoCatalog_def
      demoDiagnostics_def variantConfig_def)

lemma demo_eqeqeq:
  "lintedVariants demoEnv demoAnswers 0 demoWorld ''eqeqeq'' =
     Some [\<lparr>options = [], status = Failing\<rparr>,
           \<lparr>options = [JStr ''always''], status = Failing\<rparr>,
           \<lparr>options = [JStr ''always'', JObj [(''null'', JStr ''ignore'')]], status = Passing\<rparr>]"
  by (simp add: demo_linted demo_evaluate populateFromCoreRules_def demoCatalog_def
      demoDiagnostics_def variantConfig_def)

lemma demo_no_undef:
  "lintedVariants demoEnv demoAnswers 0 demoWorld ''no-undef'' =
     Some [\<lparr>options = [], status = Failing\<rparr>]"
  by (simp add: demo_linted demo_evaluate populateFromCoreRules_def demoCatalog_def
      demoDiagnostics_def variantConfig_def)

lemma demo_no_alert:
  "lintedVariants demoEnv demoAnswers 0 demoWorld ''no-alert'' =
     Some [\<lparr>options = [], status = Failing\<rparr>]"
  by (simp add: demo_linted demo_evaluate populateFromCoreRules_def demoCatalog_def
      demoDiagnostics_def variantConfig_def)

lemma demo_recRules: "recRules demoEnv = {|''no-undef''|}"
  by (auto simp: recRules_def demoEnv_def)

lemma soleConfig_Some: "soleConfig xs = Some c \<longleftrightarrow> (\<exists>v. xs = [v] \<and> c = variantConfig v)"
  by (auto simp: soleConfig_def split: list.splits)

lemma soleConfig_None: "soleConfig xs = None \<longleftrightarrow> length xs \<noteq> 1"
  by (auto simp: soleConfig_def split: list.splits)

lemma soleConfig_simps [simp]:
  "soleConfig [] = None" "soleConfig [v] = Some (variantConfig v)" "soleConfig (u # v # vs) = None"
  by (simp_all add: soleConfig_def)

lemma configuredRule_cases:
  assumes "lintedVariants e answers config w r = Some vs"
  shows "configuredRule e answers config w r =
     map_option normalizeRule
     (case soleConfig (filter passing vs) of
        Some c \<Rightarrow> Some c
      | None \<Rightarrow>
     (case soleConfig (filter (\<lambda>v. specificity v = 2) (filter passing vs)) of
        Some c \<Rightarrow> Some c
      | None \<Rightarrow>
     (case soleConfig (filter (\<lambda>v. specificity v = 3) (filter passing vs)) of
        Some c \<Rightarrow> Some c
      | None \<Rightarrow>
     (case soleConfig (filter (\<lambda>v. specificity v = 1) (filter passing vs)) of
        Some c \<Rightarrow> Some c
      | None \<Rightarrow> if list_all failing vs then Some (JNum (if r |\<in>| recRules e then 2 else 0)) else None))))"
proof -
  from configuredRule_linted[OF assms] obtain reg where
    reg: "fmlookup reg r = Some vs"
    and c: "configuredRule e answers config w r = map_option normalizeRule (fmlookup (ruleConfigs e reg) r)"
    by blast
  have s: "fmlookup (createConfig (stripFailingConfigs reg)) r = soleConfig (filter passing vs)"
    by (simp add: lookup_single reg soleConfig_def)
  have t: "fmlookup (createConfig (filterBySpecificity n (stripFailingConfigs reg))) r
             = soleConfig (filter (\<lambda>v. specificity v = n) (filter passing vs))" for n
    by (simp add: lookup_tier reg soleConfig_def del: filter_filter)
  have d: "fmlookup (disabledConfigs e reg) r =
             (if list_all failing vs then Some (JNum (if r |\<in>| recRules e then 2 else 0)) else None)"
    by (simp add: lookup_disabledConfigs reg)
  show ?thesis
    unfolding c ruleConfigs_lookup s t d ..
qed

lemma filter_conj_passing:
  "filter (\<lambda>x. passing x \<and> specificity x = n) vs = filter (\<lambda>v. specificity v = n) (filter passing vs)"
  by simp

lemma soleConfig_dom: "(\<exists>c. soleConfig xs = Some c) \<longleftrightarrow> length xs = 1"
  by (auto simp: soleConfig_def length_Suc_conv split: list.splits)

lemma fieldsAt_barTick [simp]: "fieldsAt (barTick x w) a = fieldsAt w a"
  by (simp add: fieldsAt_def barTick_def)

lemma loadSourceCodes_empty:
  assumes "fmlookup answers ''patterns'' = Some (JStr p)"
    and "getSourceCodeOfFiles e (splitWs p) (fieldsAt w n) = (totals, Inr fmempty)"
  shows "loadSourceCodes e answers n w =
           (Inl (Error noFilesMessage),
            logInfo newline (fold (\<lambda>total. barTick (jsDiv BAR_SOURCE_CODE_TOTAL total)) totals
              (barTick (Finite 0) w)))"
  by (simp add: loadSourceCodes_def Let_def assms)

lemma fieldsAt_alloc:
  "fieldsAt (snd (alloc obj w)) (nextAddr w) = obj"
  by (simp add: alloc_def fieldsAt_def)

lemma configureRules_frame:
  assumes "configureRules e answers config w = (res, w')" and "a < nextAddr w"
  shows "fmlookup (heap w') a = fmlookup (heap w) a"
proof -
  define n where "n = nextAddr w"
  define w0 where "w0 = snd (alloc (fieldsAt w config) w)"
  have a0: "alloc (fieldsAt w config) w = (n, w0)"
    by (simp add: w0_def n_def alloc_def)
  have h0: "fmlookup (heap w0) a = fmlookup (heap w) a" and n0: "nextAddr w0 = Suc n"
    using assms(2) by (simp_all add: w0_def n_def alloc_def)
  obtain r1 w1 where l: "loadSourceCodes e answers n w0 = (r1, w1)" by force
  note f1 = loadSourceCodes_frame[OF l]
  show ?thesis
  proof (cases r1)
    case (Inl err)
    with assms(1) a0 l have "w' = w1" by (simp add: configureRules_def)
    with f1 h0 show ?thesis by simp
  next
    case (Inr sc)
    obtain reg w2 where p: "lintPhase e sc n w1 = (reg, w2)" by force
    note f2 = lintPhase_frame[OF p]
    from f1 f2 n0 have n2: "nextAddr w2 = Suc n" and h2: "heap w2 = heap w0" by simp_all
    define w3 where "w3 = snd (alloc (ruleConfigs e reg) w2)"
    have a2: "alloc (ruleConfigs e reg) w2 = (Suc n, w3)"
      using n2 by (simp add: w3_def alloc_def)
    have "w' = normalizeToStrings n (logInfo (resultMessage (ruleConfigs e reg) (fcard (fmdom sc)))
           (barUpdate BAR_TOTAL (setField n ''rules'' (JRef (Suc n)) w3)))"
      using assms(1) a0 l Inr p a2 by (simp add: configureRules_def)
    then have "fmlookup (heap w') a = fmlookup (heap w2) a"
      using assms(2) n2 unfolding w3_def n_def
      by (simp add: normalizeToStrings_def logInfo_def barUpdate_def setField_def alloc_def fieldsAt_def)
    with h2 h0 show ?thesis by simp
  qed
qed

lemma configureRules_fresh:
  assumes "configureRules e answers config w = (Inr newConfig, w')"
  shows "newConfig = nextAddr w
         \<and> fmlookup (fieldsAt w' newConfig) ''rules'' = Some (JRef (Suc (nextAddr w)))"
proof -
  define n where "n = nextAddr w"
  define w0 where "w0 = snd (alloc (fieldsAt w config) w)"
  have a0: "alloc (fieldsAt w config) w = (n, w0)"
    by (simp add: w0_def n_def alloc_def)
  have n0: "nextAddr w0 = Suc n"
    by (simp_all add: w0_def n_def alloc_def)
  obtain r1 w1 where l: "loadSourceCodes e answers n w0 = (r1, w1)" by force
  note f1 = loadSourceCodes_frame[OF l]
  from assms a0 l obtain sc where Inr: "r1 = Inr sc"
    by (cases r1) (auto simp: configureRules_def)
  obtain reg w2 where p: "lintPhase e sc n w1 = (reg, w2)" by force
  note f2 = lintPhase_frame[OF p]
  from f1 f2 n0 have n2: "nextAddr w2 = Suc n" by simp
  define w3 where "w3 = snd (alloc (ruleConfigs e reg) w2)"
  have a2: "alloc (ruleConfigs e reg) w2 = (Suc n, w3)"
    using n2 by (simp add: w3_def alloc_def)
  have "newConfig = n \<and> w' = normalizeToStrings n (logInfo (resultMessage (ruleConfigs e reg) (fcard (fmdom sc)))
           (barUpdate BAR_TOTAL (setField n ''rules'' (JRef (Suc n)) w3)))"
    using assms(1) a0 l Inr p a2 by (auto simp: configureRules_def)
  then show ?thesis
    unfolding w3_def n_def using n2
    by (simp add: normalizeToStrings_def logInfo_def barUpdate_def setField_def alloc_def fieldsAt_def n_def)
qed

lemma demo_returns:
  "\<exists>w'. configureRules demoEnv demoAnswers 0 demoWorld = (Inr 2, w')"
proof -
  from configuredRule_linted[OF demo_quotes] obtain reg
    where "lintedRegistry demoEnv demoAnswers 0 demoWorld = Some reg" by blast
  moreover have "nextAddr demoWorld = 2" by (simp add: demoWorld_def)
  ultimately show ?thesis using configureRules_run[of demoEnv demoAnswers 0 demoWorld reg] by auto
qed

lemma loadSourceCodes_cong:
  assumes "fieldsAt w n = fieldsAt w' n'"
  shows "fst (loadSourceCodes e answers n w) = fst (loadSourceCodes e answers n' w')"
  using assms
  by (simp add: loadSourceCodes_def Let_def split: option.splits jsval.splits prod.splits sum.splits)

lemma lintedRegistry_cong:
  assumes "fieldsAt w config = fieldsAt w' config"
  shows "lintedRegistry e answers config w = lintedRegistry e answers config w'"
proof -
  define w0 where "w0 = snd (alloc (fieldsAt w config) w)"
  define w0' where "w0' = snd (alloc (fieldsAt w' config) w')"
  have a: "alloc (fieldsAt w config) w = (nextAddr w, w0)" "alloc (fieldsAt w' config) w' = (nextAddr w', w0')"
    by (simp_all add: w0_def w0'_def alloc_def)
  have f: "fieldsAt w0 (nextAddr w) = fieldsAt w0' (nextAddr w')"
    unfolding w0_def w0'_def fieldsAt_alloc by (rule assms)
  obtain r1 w1 where l: "loadSourceCodes e answers (nextAddr w) w0 = (r1, w1)" by force
  obtain r1' w1' where l': "loadSourceCodes e answers (nextAddr w') w0' = (r1', w1')" by force
  from loadSourceCodes_cong[OF f, of e answers] l l' have r: "r1' = r1" by simp
  from loadSourceCodes_frame[OF l] loadSourceCodes_frame[OF l'] f
  have f1: "fieldsAt w1 (nextAddr w) = fieldsAt w1' (nextAddr w')"
    by (simp add: fieldsAt_def)
  show ?thesis
    by (cases r1) (simp_all add: lintedRegistry_def a l l' r lintPhase_registry f1)
qed

lemma outcome_success:
  assumes "lintedRegistry e answers config w = Some reg"
  shows "outcome e answers config w =
           Inr (fmdrop ''rules'' (fieldsAt w config), Some (fmmap normalizeRule (ruleConfigs e reg)))"
proof -
  from configureRules_run[OF assms] obtain w' where
    c: "configureRules e answers config w = (Inr (nextAddr w), w')"
    and r: "rulesAt w' (nextAddr w) = Some (fmmap normalizeRule (ruleConfigs e reg))"
    by blast
  define n where "n = nextAddr w"
  define w0 where "w0 = snd (alloc (fieldsAt w config) w)"
  have a0: "alloc (fieldsAt w config) w = (n, w0)"
    by (simp add: w0_def n_def alloc_def)
  have n0: "nextAddr w0 = Suc n" and f0: "fieldsAt w0 n = fieldsAt w config"
    by (simp_all add: w0_def n_def alloc_def fieldsAt_def)
  obtain r1 w1 where l: "loadSourceCodes e answers n w0 = (r1, w1)" by force
  note f1 = loadSourceCodes_frame[OF l]
  from c a0 l obtain sc where Inr: "r1 = Inr sc"
    by (cases r1) (auto simp: configureRules_def)
  obtain reg' w2 where p: "lintPhase e sc n w1 = (reg', w2)" by force
  note f2 = lintPhase_frame[OF p]
  from f1 f2 n0 f0 have n2: "nextAddr w2 = Suc n" and f2': "fieldsAt w2 n = fieldsAt w config"
    by (simp_all add: fieldsAt_def)
  define w3 where "w3 = snd (alloc (ruleConfigs e reg') w2)"
  have a2: "alloc (ruleConfigs e reg') w2 = (Suc n, w3)"
    using n2 by (simp add: w3_def alloc_def)
  have "w' = normalizeToStrings n (logInfo (resultMessage (ruleConfigs e reg') (fcard (fmdom sc)))
           (barUpdate BAR_TOTAL (setField n ''rules'' (JRef (Suc n)) w3)))"
    using c a0 l Inr p a2 by (auto simp: configureRules_def)
  then have "fieldsAt w' n = fmupd ''rules'' (JRef (Suc n)) (fieldsAt w2 n)"
    unfolding w3_def using n2
    by (simp add: normalizeToStrings_def logInfo_def barUpdate_def setField_def alloc_def fieldsAt_def)
  then have "fmdrop ''rules'' (fieldsAt w' n) = fmdrop ''rules'' (fieldsAt w config)"
    by (simp add: f2' fmdrop_fmupd_same)
  with c r show ?thesis
    by (simp add: outcome_def n_def)
qed

lemma outcome_failure:
  assumes "fst (loadSourceCodes e answers (nextAddr w) (snd (alloc (fieldsAt w config) w))) = Inl err"
  shows "outcome e answers config w = Inl err"
  using assms
  by (auto simp: outcome_def configureRules_def alloc_def split: prod.splits sum.splits)

lemma lintedRegistry_loaded:
  assumes "fst (loadSourceCodes e answers (nextAddr w) (snd (alloc (fieldsAt w config) w))) = Inr sc"
  shows "\<exists>reg. lintedRegistry e answers config w = Some reg"
  using assms
  by (auto simp: lintedRegistry_def alloc_def split: prod.splits sum.splits)

lemma outcome_cong:
  assumes "fieldsAt w config = fieldsAt w' config"
  shows "outcome e answers config w = outcome e answers config w'"
proof -
  have "fieldsAt (snd (alloc (fieldsAt w config) w)) (nextAddr w)
          = fieldsAt (snd (alloc (fieldsAt w' config) w')) (nextAddr w')"
    unfolding fieldsAt_alloc by (rule assms)
  note l = loadSourceCodes_cong[OF this, of e answers]
  show ?thesis
  proof (cases "fst (loadSourceCodes e answers (nextAddr w) (snd (alloc (fieldsAt w config) w)))")
    case (Inl err)
    with l have "fst (loadSourceCodes e answers (nextAddr w') (snd (alloc (fieldsAt w' config) w'))) = Inl err"
      by simp
    from outcome_failure[OF Inl] outcome_failure[OF this] show ?thesis by simp
  next
    case (Inr sc)
    from lintedRegistry_loaded[OF this] obtain reg
      where r: "lintedRegistry e answers config w = Some reg" by blast
    with lintedRegistry_cong[OF assms] have "lintedRegistry e answers config w' = Some reg" by simp
    from outcome_success[OF r] outcome_success[OF this] assms show ?thesis by simp
  qed
qed






lemma recRules_iff:
  "ruleId |\<in>| recRules e \<longleftrightarrow>
     (case fmlookup (recConfigRules e) ruleId of Some c \<Rightarrow> isErrorSeverity e c | None \<Rightarrow> False)"
  by (auto simp: recRules_def fmlookup_dom_iff split: option.splits)

lemma demo_no_console:
  "lintedVariants demoEnv demoAnswers 0 demoWorld ''no-console'' =
     Some [\<lparr>options = [], status = Failing\<rparr>]"
  by (simp add: demo_linted demo_evaluate populateFromCoreRules_def demoCatalog_def
      demoDiagnostics_def variantConfig_def)

lemma configureRules_cache:
  "peerCache (snd (configureRules e answers config w)) = peerCache w
   \<and> fetched (snd (configureRules e answers config w)) = fetched w"
proof -
  define n where "n = nextAddr w"
  define w0 where "w0 = snd (alloc (fieldsAt w config) w)"
  have a0: "alloc (fieldsAt w config) w = (n, w0)"
    by (simp add: w0_def n_def alloc_def)
  have c0: "peerCache w0 = peerCache w" "fetched w0 = fetched w"
    by (simp_all add: w0_def alloc_def)
  obtain r1 w1 where l: "loadSourceCodes e answers n w0 = (r1, w1)" by force
  note f1 = loadSourceCodes_frame[OF l]
  show ?thesis
  proof (cases r1)
    case (Inl err)
    then show ?thesis using a0 l f1 c0 by (simp add: configureRules_def)
  next
    case (Inr sc)
    obtain reg w2 where p: "lintPhase e sc n w1 = (reg, w2)" by force
    note f2 = lintPhase_frame[OF p]
    obtain m w3 where a2: "alloc (ruleConfigs e reg) w2 = (m, w3)" by force
    then have c3: "peerCache w3 = peerCache w2" "fetched w3 = fetched w2"
      by (auto simp: alloc_def)
    have "snd (configureRules e answers config w) =
            normalizeToStrings n (logInfo (resultMessage (ruleConfigs e reg) (fcard (fmdom sc)))
              (barUpdate BAR_TOTAL (setField n ''rules'' (JRef m) w3)))"
      using a0 l Inr p a2 by (simp add: configureRules_def)
    then show ?thesis
      using c3 f2 f1 c0
      by (simp add: normalizeToStrings_def logInfo_def barUpdate_def setField_def
          split: option.splits jsval.splits)
  qed
qed

lemma getPeerDependencies_hit:
  assumes "fmlookup (peerCache w) m = Some r" "truthy r"
  shows "getPeerDependencies e m w = (r, w)"
  using assms by (simp add: getPeerDependencies_def)

lemma getPeerDependencies_cached:
  assumes "getPeerDependencies e m w = (r, w1)" "truthy r"
  shows "fmlookup (peerCache w1) m = Some r"
  using assms
  by (auto simp: getPeerDependencies_def Let_def logInfo_def split: if_splits option.splits)

lemma getPeerDependencies_other:
  assumes "fmlookup (peerCache w) m = Some r" "truthy r"
  shows "fmlookup (peerCache (snd (getPeerDependencies e m' w))) m = Some r"
proof (cases "m' = m")
  case True
  with getPeerDependencies_hit[OF assms] assms(1) show ?thesis by simp
next
  case False
  with assms(1) show ?thesis
    by (simp add: getPeerDependencies_def Let_def logInfo_def)
qed

lemma perform_keeps:
  assumes "fmlookup (peerCache w) m = Some r" "truthy r"
  shows "fmlookup (peerCache (perform e c w)) m = Some r"
proof (cases c)
  case (GetPeerDependencies m')
  with getPeerDependencies_other[OF assms] show ?thesis by simp
next
  case (ConfigureRules answers config)
  with configureRules_cache[of e answers config w] assms(1) show ?thesis by simp
qed

lemma performAll_keeps:
  assumes "fmlookup (peerCache w) m = Some r" "truthy r"
  shows "fmlookup (peerCache (performAll e cs w)) m = Some r"
  using assms(1)
proof (induction cs arbitrary: w)
  case Nil
  then show ?case by simp
next
  case (Cons c cs)
  from perform_keeps[OF Cons.prems assms(2)] show ?case
    by (simp add: Cons.IH)
qed

section \<open>The claims\<close>

text \<open>
  C1, sweet spot, as the code has it. \<^verbatim>\<open>createConfig\<close> adds a rule only when the
  registry has one variant for it, so the two-option tier contributes for a rule only
  when exactly one of its variants is passing at specificity 2. For every rule with
  exactly one passing variant at specificity 2 and at least one at specificity 3, the
  entry in the returned configuration is that specificity-2 variant: the two-option tier
  overwrites the three-option tier.
\<close>

theorem sweet_spot_single:
  assumes "lintedVariants e answers config w ruleId = Some vs"
    and "filter (\<lambda>x. passing x \<and> specificity x = 2) vs = [v]"
    and "filter (\<lambda>x. passing x \<and> specificity x = 3) vs \<noteq> []"
  shows "configuredRule e answers config w ruleId = Some (JArr (JStr ''error'' # options v))
         \<and> specificity v = 2"
proof -
  from configuredRule_linted[OF assms(1)] obtain reg where
    "fmlookup reg ruleId = Some vs"
    "configuredRule e answers config w ruleId = map_option normalizeRule (fmlookup (ruleConfigs e reg) ruleId)"
    by blast
  with entry_two[OF _ assms(2)] have "configuredRule e answers config w ruleId = Some (JArr (JStr ''error'' # options v))"
    by (simp add: normalize_variantConfig)
  moreover have "v \<in> set (filter (\<lambda>x. passing x \<and> specificity x = 2) vs)"
    using assms(2) by simp
  then have "specificity v = 2" by simp
  ultimately show ?thesis by simp
qed

theorem sweet_spot_single_witness:
  "lintedVariants demoEnv demoAnswers 0 demoWorld ''quotes'' =
     Some [\<lparr>options = [], status = Passing\<rparr>,
           \<lparr>options = [JStr ''single''], status = Failing\<rparr>,
           \<lparr>options = [JStr ''double''], status = Passing\<rparr>,
           \<lparr>options = [JStr ''double'', JObj [(''avoidEscape'', JBool True)]], status = Passing\<rparr>]
   \<and> configuredRule demoEnv demoAnswers 0 demoWorld ''quotes'' = Some (JArr [JStr ''error'', JStr ''double''])
   \<and> specificity \<lparr>options = [JStr ''double''], status = Passing\<rparr> = 2"
  using sweet_spot_single[OF demo_quotes, of "\<lparr>options = [JStr ''double''], status = Passing\<rparr>"]
  by (simp add: demo_quotes passing_def specificity_def)

text \<open>
  C1 as stated fails when two variants pass at specificity 2. In the sample project the
  rule \<^verbatim>\<open>curly\<close> has two passing variants at specificity 2 and one at
  specificity 3 (so not one passing variant overall), and its entry is the
  specificity-3 variant.
\<close>

theorem sweet_spot_counterexample:
  "lintedVariants demoEnv demoAnswers 0 demoWorld ''curly'' =
     Some [\<lparr>options = [JStr ''all''], status = Passing\<rparr>,
           \<lparr>options = [JStr ''multi''], status = Passing\<rparr>,
           \<lparr>options = [JStr ''multi'', JStr ''consistent''], status = Passing\<rparr>]
   \<and> specificity \<lparr>options = [JStr ''all''], status = Passing\<rparr> = 2
   \<and> specificity \<lparr>options = [JStr ''multi''], status = Passing\<rparr> = 2
   \<and> specificity \<lparr>options = [JStr ''multi'', JStr ''consistent''], status = Passing\<rparr> = 3
   \<and> configuredRule demoEnv demoAnswers 0 demoWorld ''curly'' =
       Some (JArr [JStr ''error'', JStr ''multi'', JStr ''consistent''])"
  unfolding configuredRule_cases[OF demo_curly]
  by (simp add: demo_curly passing_def specificity_def variantConfig_def severityString_def)

text \<open>
  C2, unique-survivor override. When exactly one variant of a rule is passing, over all
  specificity levels together, the call returns a configuration whose entry for the rule
  is that variant: the severity \<^verbatim>\<open>error\<close> followed by the variant's option values
  as they are, whatever the variant's specificity.
\<close>

theorem unique_survivor_override:
  assumes "lintedVariants e answers config w ruleId = Some vs"
    and "filter passing vs = [v]"
  shows "configuredRule e answers config w ruleId = Some (JArr (JStr ''error'' # options v))"
proof -
  from configuredRule_linted[OF assms(1)] obtain reg where
    "fmlookup reg ruleId = Some vs"
    "configuredRule e answers config w ruleId = map_option normalizeRule (fmlookup (ruleConfigs e reg) ruleId)"
    by blast
  with entry_single[OF _ assms(2)] show ?thesis
    by (simp add: normalize_variantConfig)
qed

theorem unique_survivor_override_witness:
  "lintedVariants demoEnv demoAnswers 0 demoWorld ''eqeqeq'' =
     Some [\<lparr>options = [], status = Failing\<rparr>,
           \<lparr>options = [JStr ''always''], status = Failing\<rparr>,
           \<lparr>options = [JStr ''always'', JObj [(''null'', JStr ''ignore'')]], status = Passing\<rparr>]
   \<and> specificity \<lparr>options = [JStr ''always'', JObj [(''null'', JStr ''ignore'')]], status = Passing\<rparr> = 3
   \<and> configuredRule demoEnv demoAnswers 0 demoWorld ''eqeqeq'' =
       Some (JArr [JStr ''error'', JStr ''always'', JObj [(''null'', JStr ''ignore'')]])"
  using unique_survivor_override[OF demo_eqeqeq,
      of "\<lparr>options = [JStr ''always'', JObj [(''null'', JStr ''ignore'')]], status = Passing\<rparr>"]
  by (simp add: demo_eqeqeq passing_def specificity_def)

text \<open>
  C3, disabled fallback. A rule of the registry with no passing variant gets, at line 249,
  the bare number 2 when the recommended configuration has an entry for it that
  \<^verbatim>\<open>isErrorSeverity\<close> accepts (the list of line 214), and 0 otherwise, also when it is
  recommended at a lower severity; no tier overwrites it. In the returned configuration
  that is the severity \<^verbatim>\<open>error\<close> or \<^verbatim>\<open>off\<close>, with no option values.
\<close>

theorem disabled_fallback:
  assumes "lintedVariants e answers config w ruleId = Some vs"
    and "filter passing vs = []"
  shows "configuredRule e answers config w ruleId =
           Some (JStr (if (case fmlookup (recConfigRules e) ruleId of
                             Some c \<Rightarrow> isErrorSeverity e c | None \<Rightarrow> False)
                       then ''error'' else ''off''))
         \<and> (\<exists>registry. lintedRegistry e answers config w = Some registry
              \<and> fmlookup (ruleConfigs e registry) ruleId =
                  Some (JNum (if (case fmlookup (recConfigRules e) ruleId of
                                    Some c \<Rightarrow> isErrorSeverity e c | None \<Rightarrow> False)
                              then 2 else 0)))"
proof -
  from configuredRule_linted[OF assms(1)] obtain reg where
    l: "lintedRegistry e answers config w = Some reg" and
    r: "fmlookup reg ruleId = Some vs" and
    c: "configuredRule e answers config w ruleId = map_option normalizeRule (fmlookup (ruleConfigs e reg) ruleId)"
    by blast
  from lintedVariants_failing[OF assms(1)] assms(2) have "list_all failing vs" by simp
  from entry_failing[OF r assms(2) this]
  have e: "fmlookup (ruleConfigs e reg) ruleId =
             Some (JNum (if (case fmlookup (recConfigRules e) ruleId of
                               Some c \<Rightarrow> isErrorSeverity e c | None \<Rightarrow> False)
                         then 2 else 0))"
    by (simp only: recRules_iff)
  with c have "configuredRule e answers config w ruleId =
           Some (JStr (if (case fmlookup (recConfigRules e) ruleId of
                             Some c \<Rightarrow> isErrorSeverity e c | None \<Rightarrow> False)
                       then ''error'' else ''off''))"
    by (simp add: severityString_def)
  with l e show ?thesis by simp
qed

theorem disabled_fallback_witness:
  "lintedVariants demoEnv demoAnswers 0 demoWorld ''no-undef'' = Some [\<lparr>options = [], status = Failing\<rparr>]
   \<and> fmlookup (recConfigRules demoEnv) ''no-undef'' = Some (JStr ''error'')
   \<and> isErrorSeverity demoEnv (JStr ''error'')
   \<and> configuredRule demoEnv demoAnswers 0 demoWorld ''no-undef'' = Some (JStr ''error'')
   \<and> lintedVariants demoEnv demoAnswers 0 demoWorld ''no-console'' = Some [\<lparr>options = [], status = Failing\<rparr>]
   \<and> fmlookup (recConfigRules demoEnv) ''no-console'' = Some (JStr ''warn'')
   \<and> \<not> isErrorSeverity demoEnv (JStr ''warn'')
   \<and> configuredRule demoEnv demoAnswers 0 demoWorld ''no-console'' = Some (JStr ''off'')
   \<and> lintedVariants demoEnv demoAnswers 0 demoWorld ''no-alert'' = Some [\<lparr>options = [], status = Failing\<rparr>]
   \<and> fmlookup (recConfigRules demoEnv) ''no-alert'' = None
   \<and> configuredRule demoEnv demoAnswers 0 demoWorld ''no-alert'' = Some (JStr ''off'')"
proof -
  have r: "fmlookup (recConfigRules demoEnv) ''no-undef'' = Some (JStr ''error'')"
    "fmlookup (recConfigRules demoEnv) ''no-console'' = Some (JStr ''warn'')"
    "fmlookup (recConfigRules demoEnv) ''no-alert'' = None"
    "isErrorSeverity demoEnv (JStr ''error'')"
    "\<not> isErrorSeverity demoEnv (JStr ''warn'')"
    by (simp_all add: demoEnv_def)
  from disabled_fallback[OF demo_no_undef] disabled_fallback[OF demo_no_console]
    disabled_fallback[OF demo_no_alert] r
  show ?thesis
    by (simp add: demo_no_undef demo_no_console demo_no_alert passing_def)
qed

text \<open>
  C4, no files. When the loader returns no parsed file, the call throws the error of
  line 200, whose message says that no files were able to be parsed. Nothing has been
  linted by then: the count of analyzer runs is unchanged and the progress bar has seen
  only the initial tick and the loader's ticks. No configuration is returned.
\<close>

theorem empty_corpus_aborts:
  assumes "fmlookup answers ''patterns'' = Some (JStr p)"
    and "getSourceCodeOfFiles e (splitWs p) (fieldsAt w config) = (totals, Inr fmempty)"
  shows "\<exists>w'. configureRules e answers config w = (Inl (Error noFilesMessage), w')
          \<and> verified w' = verified w
          \<and> barCalls w' = barCalls w @ Tick (Finite 0) #
               map (\<lambda>total. Tick (jsDiv BAR_SOURCE_CODE_TOTAL total)) totals
          \<and> logged w' = logged w @ [newline]
          \<and> configuredRules e answers config w = None"
proof -
  define w0 where "w0 = snd (alloc (fieldsAt w config) w)"
  have a: "alloc (fieldsAt w config) w = (nextAddr w, w0)"
    by (simp add: w0_def alloc_def)
  have f: "fieldsAt w0 (nextAddr w) = fieldsAt w config"
    unfolding w0_def by (rule fieldsAt_alloc)
  define w1 where "w1 = logInfo newline (fold (\<lambda>total. barTick (jsDiv BAR_SOURCE_CODE_TOTAL total)) totals
              (barTick (Finite 0) w0))"
  have l: "loadSourceCodes e answers (nextAddr w) w0 = (Inl (Error noFilesMessage), w1)"
    unfolding w1_def using assms(2) f by (intro loadSourceCodes_empty[OF assms(1)]) simp
  have c: "configureRules e answers config w = (Inl (Error noFilesMessage), w1)"
    by (simp add: configureRules_def a l)
  have "verified w1 = verified w"
    by (simp add: w1_def w0_def logInfo_def fold_barTick_fields barTick_def alloc_def)
  moreover have "barCalls w1 = barCalls w @ Tick (Finite 0) #
               map (\<lambda>total. Tick (jsDiv BAR_SOURCE_CODE_TOTAL total)) totals"
    by (simp add: w1_def w0_def logInfo_def fold_barTick_calls barTick_def alloc_def)
  moreover have "logged w1 = logged w @ [newline]"
    by (simp add: w1_def w0_def logInfo_def fold_barTick_fields barTick_def alloc_def)
  moreover have "configuredRules e answers config w = None"
    by (simp add: configuredRules_def c)
  ultimately show ?thesis using c by simp
qed

theorem empty_corpus_aborts_witness:
  "fmlookup demoAnswers ''patterns'' = Some (JStr ''lib test'')
   \<and> getSourceCodeOfFiles emptyEnv (splitWs ''lib test'') (fieldsAt demoWorld 0) = ([], Inr fmempty)
   \<and> fst (configureRules emptyEnv demoAnswers 0 demoWorld) =
       Inl (Error ''Automatic Configuration failed.  No files were able to be parsed.'')
   \<and> verified (snd (configureRules emptyEnv demoAnswers 0 demoWorld)) = 0
   \<and> configuredRules emptyEnv demoAnswers 0 demoWorld = None"
  using empty_corpus_aborts[of demoAnswers "''lib test''" emptyEnv demoWorld 0 "[]"]
  by (auto simp: demoAnswers_def emptyEnv_def demoEnv_def noFilesMessage_def demoWorld_def)

text \<open>
  C5, the domain of the returned rules object, as the code has it. The rules object is a
  finite map, so a rule has at most one entry. A rule has an entry exactly when it is in
  the registry and either none of its variants is passing (the fallback entry, whether
  the rule is recommended or not), or exactly one is passing overall, or exactly one is
  passing at specificity 1, at 2 or at 3.
\<close>

theorem rules_domain:
  "(\<exists>c. configuredRule e answers config w ruleId = Some c) \<longleftrightarrow>
   (\<exists>vs. lintedVariants e answers config w ruleId = Some vs \<and>
      (filter passing vs = []
       \<or> length (filter passing vs) = 1
       \<or> length (filter (\<lambda>x. passing x \<and> specificity x = 1) vs) = 1
       \<or> length (filter (\<lambda>x. passing x \<and> specificity x = 2) vs) = 1
       \<or> length (filter (\<lambda>x. passing x \<and> specificity x = 3) vs) = 1))"
proof (cases "lintedVariants e answers config w ruleId")
  case None
  then show ?thesis by (simp add: configuredRule_unlinted)
next
  case (Some vs)
  note f = lintedVariants_failing[OF Some]
  have n: "(\<exists>c. map_option normalizeRule x = Some c) \<longleftrightarrow> (\<exists>c. x = Some c)" for x
    by (cases x) auto
  have o: "(\<exists>c. (case a of Some c \<Rightarrow> Some c | None \<Rightarrow> b) = Some c) \<longleftrightarrow> (\<exists>c. a = Some c) \<or> (\<exists>c. b = Some c)"
    for a b :: "jsval option"
    by (cases a) auto
  have i: "(\<exists>c. (if p then Some x else None) = Some c) \<longleftrightarrow> p" for p and x :: jsval
    by simp
  show ?thesis
    unfolding configuredRule_cases[OF Some] n o i soleConfig_dom f filter_conj_passing
    using Some by auto
qed

text \<open>
  C5 as stated fails in both directions. In the sample project \<^verbatim>\<open>no-alert\<close> is
  not recommended and its only variant fails, yet it has the entry \<^verbatim>\<open>off\<close>;
  \<^verbatim>\<open>indent\<close> has two passing variants, both at specificity 2, and has no entry.
\<close>

theorem rules_domain_counterexample:
  "lintedVariants demoEnv demoAnswers 0 demoWorld ''no-alert'' = Some [\<lparr>options = [], status = Failing\<rparr>]
   \<and> ''no-alert'' |\<notin>| recRules demoEnv
   \<and> configuredRule demoEnv demoAnswers 0 demoWorld ''no-alert'' = Some (JStr ''off'')
   \<and> lintedVariants demoEnv demoAnswers 0 demoWorld ''indent'' =
       Some [\<lparr>options = [], status = Failing\<rparr>,
             \<lparr>options = [JNum 2], status = Passing\<rparr>,
             \<lparr>options = [JNum 4], status = Passing\<rparr>]
   \<and> configuredRule demoEnv demoAnswers 0 demoWorld ''indent'' = None"
  unfolding configuredRule_cases[OF demo_no_alert] configuredRule_cases[OF demo_indent]
  by (simp add: demo_no_alert demo_indent demo_recRules passing_def failing_def specificity_def
      severityString_def)

text \<open>
  C6, ties within a tier, as the code has it. A tier never chooses among several
  variants: for every rule with two or more passing variants at one specificity level,
  that level contributes nothing, and the rule's entry is either absent or the only
  passing variant of another level. The result is a function of the linted registry, so
  it is the same on every run.
\<close>

theorem tier_needs_single:
  assumes "lintedVariants e answers config w ruleId = Some vs"
    and "2 \<le> length (filter (\<lambda>x. passing x \<and> specificity x = n) vs)"
  shows "configuredRule e answers config w ruleId = None
         \<or> (\<exists>u. u \<in> set vs \<and> passing u \<and> specificity u \<noteq> n
              \<and> filter (\<lambda>x. passing x \<and> specificity x = specificity u) vs = [u]
              \<and> configuredRule e answers config w ruleId = Some (JArr (JStr ''error'' # options u)))"
proof -
  let ?ps = "filter passing vs"
  let ?at = "\<lambda>m. filter (\<lambda>v. specificity v = m) ?ps"
  have len: "2 \<le> length (?at n)" using assms(2) by simp
  have "length (?at n) \<le> length ?ps" by (rule length_filter_le)
  with len have ps2: "2 \<le> length ?ps" by simp
  then have s: "soleConfig ?ps = None" by (simp add: soleConfig_None)
  from ps2 have "?ps \<noteq> []" by auto
  then have nf: "\<not> list_all failing vs" by (rule passing_not_all_failing)
  have tier: "\<exists>u. u \<in> set vs \<and> passing u \<and> specificity u \<noteq> n
              \<and> filter (\<lambda>x. passing x \<and> specificity x = specificity u) vs = [u]
              \<and> map_option normalizeRule (Some c) = Some (JArr (JStr ''error'' # options u))"
    if "soleConfig (?at m) = Some c" for m c
  proof -
    from that obtain u where u: "?at m = [u]" and c: "c = variantConfig u"
      by (auto simp: soleConfig_Some)
    from u have "u \<in> set (?at m)" by simp
    then have mem: "u \<in> set vs" "passing u" "specificity u = m" by auto
    from u len have "m \<noteq> n" by auto
    with mem u c show ?thesis
      by (auto simp: normalize_variantConfig)
  qed
  show ?thesis
    unfolding configuredRule_cases[OF assms(1)] s
    using nf tier[of 2] tier[of 3] tier[of 1]
    by (auto split: option.splits)
qed

theorem tier_needs_single_witness:
  "lintedVariants demoEnv demoAnswers 0 demoWorld ''curly'' =
     Some [\<lparr>options = [JStr ''all''], status = Passing\<rparr>,
           \<lparr>options = [JStr ''multi''], status = Passing\<rparr>,
           \<lparr>options = [JStr ''multi'', JStr ''consistent''], status = Passing\<rparr>]
   \<and> configuredRule demoEnv demoAnswers 0 demoWorld ''curly'' \<noteq> Some (JArr [JStr ''error'', JStr ''all''])
   \<and> configuredRule demoEnv demoAnswers 0 demoWorld ''curly'' \<noteq> Some (JArr [JStr ''error'', JStr ''multi''])"
  using tier_needs_single[OF demo_curly, of 2]
  by (auto simp: demo_curly passing_def specificity_def)

text \<open>
  C6 as stated fails: in the sample project the passing variants of \<^verbatim>\<open>indent\<close>
  are two variants of specificity 2, the only tier they could come from is the two-option
  tier, and the returned configuration has no entry for the rule, not the first of the
  two in catalog order.
\<close>

theorem tie_break_counterexample:
  "lintedVariants demoEnv demoAnswers 0 demoWorld ''indent'' =
     Some [\<lparr>options = [], status = Failing\<rparr>,
           \<lparr>options = [JNum 2], status = Passing\<rparr>,
           \<lparr>options = [JNum 4], status = Passing\<rparr>]
   \<and> specificity \<lparr>options = [JNum 2], status = Passing\<rparr> = 2
   \<and> specificity \<lparr>options = [JNum 4], status = Passing\<rparr> = 2
   \<and> configuredRule demoEnv demoAnswers 0 demoWorld ''indent'' \<noteq> Some (JArr [JStr ''error'', JNum 2])
   \<and> configuredRule demoEnv demoAnswers 0 demoWorld ''indent'' = None"
  unfolding configuredRule_cases[OF demo_indent]
  by (simp add: demo_indent passing_def failing_def specificity_def)

text \<open>
  C7, running twice. A second call with the same answers and the same configuration
  object, on the world the first call left, lints to the same registry (the same status
  for every variant) and gives the same result: the same error, or a configuration with
  the same fields and the same rules object contents. The collaborators are functions of
  their arguments here, which is the claim's deterministic analyzer.
\<close>

theorem rerun_same_result:
  assumes "config < nextAddr w"
  shows "lintedRegistry e answers config (snd (configureRules e answers config w))
           = lintedRegistry e answers config w
         \<and> outcome e answers config (snd (configureRules e answers config w))
           = outcome e answers config w"
proof -
  have "fmlookup (heap (snd (configureRules e answers config w))) config = fmlookup (heap w) config"
    using configureRules_frame[OF _ assms] by (metis surjective_pairing)
  then have "fieldsAt (snd (configureRules e answers config w)) config = fieldsAt w config"
    by (simp add: fieldsAt_def)
  from lintedRegistry_cong[OF this] outcome_cong[OF this] show ?thesis by simp
qed

theorem rerun_same_result_witness:
  "0 < nextAddr demoWorld
   \<and> fst (configureRules demoEnv demoAnswers 0 demoWorld) = Inr 2
   \<and> lintedRegistry demoEnv demoAnswers 0 (snd (configureRules demoEnv demoAnswers 0 demoWorld))
       = lintedRegistry demoEnv demoAnswers 0 demoWorld
   \<and> outcome demoEnv demoAnswers 0 (snd (configureRules demoEnv demoAnswers 0 demoWorld))
       = outcome demoEnv demoAnswers 0 demoWorld"
proof -
  have n: "0 < nextAddr demoWorld" by (simp add: demoWorld_def)
  from demo_returns rerun_same_result[OF n, of demoEnv demoAnswers] n show ?thesis by auto
qed




text \<open>
  C9, the caller's configuration is not mutated. For a configuration object that exists
  before the call, together with its rules object if it has one, the call leaves the
  fields of the configuration and the contents of its rules object as they were, whether
  it returns or throws. What it returns is another object, and the rules object of that
  one is a new object too, not the caller's.
\<close>

theorem config_not_mutated:
  assumes "configureRules e answers config w = (res, w')"
    and "config < nextAddr w"
    and "case fmlookup (fieldsAt w config) ''rules'' of Some (JRef r) \<Rightarrow> r < nextAddr w | _ \<Rightarrow> True"
  shows "fieldsAt w' config = fieldsAt w config
         \<and> rulesAt w' config = rulesAt w config
         \<and> (case res of
               Inl err \<Rightarrow> True
             | Inr newConfig \<Rightarrow>
                 newConfig \<noteq> config
                 \<and> fmlookup (fieldsAt w' newConfig) ''rules'' = Some (JRef (Suc (nextAddr w)))
                 \<and> fmlookup (fieldsAt w config) ''rules'' \<noteq> Some (JRef (Suc (nextAddr w))))"
proof -
  have f: "fieldsAt w' config = fieldsAt w config"
    using configureRules_frame[OF assms(1,2)] by (simp add: fieldsAt_def)
  have r: "rulesAt w' config = rulesAt w config"
  proof (cases "fmlookup (fieldsAt w config) ''rules''")
    case None
    then show ?thesis by (simp add: rulesAt_def f)
  next
    case (Some v)
    show ?thesis
    proof (cases v)
      case (JRef r)
      with Some assms(3) have "r < nextAddr w" by simp
      from configureRules_frame[OF assms(1) this] Some JRef show ?thesis
        by (simp add: rulesAt_def f)
    qed (use Some in \<open>simp_all add: rulesAt_def f\<close>)
  qed
  have "newConfig \<noteq> config
        \<and> fmlookup (fieldsAt w' newConfig) ''rules'' = Some (JRef (Suc (nextAddr w)))
        \<and> fmlookup (fieldsAt w config) ''rules'' \<noteq> Some (JRef (Suc (nextAddr w)))"
    if "res = Inr newConfig" for newConfig
    using configureRules_fresh[of e answers config w newConfig w'] assms that
    by (auto split: option.splits jsval.splits)
  with f r show ?thesis by (auto split: sum.splits)
qed

theorem config_not_mutated_witness:
  "0 < nextAddr demoWorld
   \<and> fmlookup (fieldsAt demoWorld 0) ''rules'' = Some (JRef 1)
   \<and> 1 < nextAddr demoWorld
   \<and> fst (configureRules demoEnv demoAnswers 0 demoWorld) = Inr 2
   \<and> fieldsAt (snd (configureRules demoEnv demoAnswers 0 demoWorld)) 0 = fieldsAt demoWorld 0
   \<and> rulesAt (snd (configureRules demoEnv demoAnswers 0 demoWorld)) 0 =
       Some (fmupd ''indent'' (JArr [JStr ''error'', JNum 4]) fmempty)
   \<and> fmlookup (fieldsAt (snd (configureRules demoEnv demoAnswers 0 demoWorld)) 2) ''rules'' = Some (JRef 3)"
proof -
  obtain w' where r: "configureRules demoEnv demoAnswers 0 demoWorld = (Inr 2, w')"
    using demo_returns by blast
  have f: "fmlookup (fieldsAt demoWorld 0) ''rules'' = Some (JRef 1)"
    by (simp add: demoWorld_def fieldsAt_def)
  have "rulesAt demoWorld 0 = Some (fmupd ''indent'' (JArr [JStr ''error'', JNum 4]) fmempty)"
    by (simp add: rulesAt_def f) (simp add: demoWorld_def)
  with config_not_mutated[OF r] f show ?thesis
    by (simp add: r) (simp add: demoWorld_def)
qed

text \<open>
  C10, the cache of peer dependencies, as the code has it. Once a call for a module has
  returned a truthy value, a call for the same module after any sequence of calls of the
  two modelled functions returns that value and leaves the world as it is: nothing is
  fetched and nothing logged. A falsy result is stored in the cache all the same (line 96
  runs for every fetched value), but it is never served from it: the next call for the
  module asks the network again and returns what it answers then.
\<close>

theorem peer_cache_coherent:
  assumes "getPeerDependencies e m w = (r, w1)"
  shows "if truthy r
         then getPeerDependencies e m (performAll e cs w1) = (r, performAll e cs w1)
         else fmlookup (peerCache w1) m = Some r
              \<and> getPeerDependencies e m w1 =
                  (fetchPeerDependencies e (length (fetched w1)) m,
                   snd (getPeerDependencies e m w1))
              \<and> fetched (snd (getPeerDependencies e m w1)) = fetched w1 @ [m]"
proof (cases "truthy r")
  case True
  from getPeerDependencies_cached[OF assms True]
  have "fmlookup (peerCache (performAll e cs w1)) m = Some r"
    by (rule performAll_keeps) (rule True)
  from getPeerDependencies_hit[OF this True] True show ?thesis by simp
next
  case False
  have stored: "fmlookup (peerCache w1) m = Some r"
    using assms False
    by (auto simp: getPeerDependencies_def Let_def logInfo_def split: if_splits option.splits)
  then have "\<not> truthy (case fmlookup (peerCache w1) m of Some v \<Rightarrow> v | None \<Rightarrow> JUndefined)"
    using False by simp
  then show ?thesis using False stored
    by (simp add: getPeerDependencies_def Let_def logInfo_def)
qed

theorem peer_cache_coherent_witness:
  "getPeerDependencies demoEnv ''eslint-config-x@latest'' demoWorld
     = (JNull, snd (getPeerDependencies demoEnv ''eslint-config-x@latest'' demoWorld))
   \<and> \<not> truthy JNull
   \<and> fetched (snd (getPeerDependencies demoEnv ''eslint-config-x@latest'' demoWorld)) = [''eslint-config-x@latest'']
   \<and> getPeerDependencies demoEnv ''eslint-config-x@latest''
         (snd (getPeerDependencies demoEnv ''eslint-config-x@latest'' demoWorld))
       = (JObj [(''eslint'', JStr ''7'')],
          snd (getPeerDependencies demoEnv ''eslint-config-x@latest''
            (snd (getPeerDependencies demoEnv ''eslint-config-x@latest'' demoWorld))))
   \<and> fetched (snd (getPeerDependencies demoEnv ''eslint-config-x@latest''
         (snd (getPeerDependencies demoEnv ''eslint-config-x@latest'' demoWorld))))
       = [''eslint-config-x@latest'', ''eslint-config-x@latest'']
   \<and> truthy (JObj [(''eslint'', JStr ''7'')])
   \<and> getPeerDependencies demoEnv ''eslint-config-x@latest''
         (performAll demoEnv [ConfigureRules demoAnswers 0, GetPeerDependencies ''eslint-config-y@latest'']
            (snd (getPeerDependencies demoEnv ''eslint-config-x@latest''
               (snd (getPeerDependencies demoEnv ''eslint-config-x@latest'' demoWorld)))))
       = (JObj [(''eslint'', JStr ''7'')],
          performAll demoEnv [ConfigureRules demoAnswers 0, GetPeerDependencies ''eslint-config-y@latest'']
            (snd (getPeerDependencies demoEnv ''eslint-config-x@latest''
               (snd (getPeerDependencies demoEnv ''eslint-config-x@latest'' demoWorld)))))"
proof -
  let ?m = "''eslint-config-x@latest''"
  let ?w1 = "snd (getPeerDependencies demoEnv ?m demoWorld)"
  let ?w2 = "snd (getPeerDependencies demoEnv ?m ?w1)"
  have first: "getPeerDependencies demoEnv ?m demoWorld = (JNull, ?w1)"
    by (simp add: getPeerDependencies_def demoWorld_def demoEnv_def logInfo_def Let_def)
  have f1: "fetched ?w1 = [?m]"
    by (simp add: getPeerDependencies_def demoWorld_def demoEnv_def logInfo_def Let_def)
  from peer_cache_coherent[OF first, of "[]"]
  have again: "getPeerDependencies demoEnv ?m ?w1 = (fetchPeerDependencies demoEnv (length (fetched ?w1)) ?m, ?w2)"
    and f2: "fetched ?w2 = fetched ?w1 @ [?m]"
    by simp_all
  have k: "fetchPeerDependencies demoEnv (length (fetched ?w1)) ?m = JObj [(''eslint'', JStr ''7'')]"
    unfolding f1 by (simp add: demoEnv_def)
  have second: "getPeerDependencies demoEnv ?m ?w1 = (JObj [(''eslint'', JStr ''7'')], ?w2)"
    using again unfolding k .
  from peer_cache_coherent[OF second,
      of "[ConfigureRules demoAnswers 0, GetPeerDependencies ''eslint-config-y@latest'']"]
  have third: "getPeerDependencies demoEnv ?m
         (performAll demoEnv [ConfigureRules demoAnswers 0, GetPeerDependencies ''eslint-config-y@latest''] ?w2)
       = (JObj [(''eslint'', JStr ''7'')],
          performAll demoEnv [ConfigureRules demoAnswers 0, GetPeerDependencies ''eslint-config-y@latest''] ?w2)"
    by simp
  from first f1 second f2 third show ?thesis by simp
qed

text \<open>
  C10 as stated fails in its last clause: the first call for a module in the sample
  project gets \<^verbatim>\<open>null\<close> from the network, a falsy value, and after the call the cache
  holds that value for the module.
\<close>

theorem falsy_result_cached_counterexample:
  "fst (getPeerDependencies demoEnv ''eslint-config-x@latest'' demoWorld) = JNull
   \<and> \<not> truthy JNull
   \<and> fmlookup (peerCache demoWorld) ''eslint-config-x@latest'' = None
   \<and> fmlookup (peerCache (snd (getPeerDependencies demoEnv ''eslint-config-x@latest'' demoWorld)))
         ''eslint-config-x@latest'' = Some JNull"
  by (simp add: getPeerDependencies_def demoWorld_def demoEnv_def logInfo_def Let_def)

end
